theory Spec2Isabelle
  imports Main "HOL-Library.Word"
begin

section \<open>The serial command console of i2c\_term.ino\<close>

text \<open>
  A shallow embedding of \<^verbatim>\<open>examples/i2c_term/i2c_term.ino\<close>: the line buffer of
  \<^verbatim>\<open>loop\<close>, the dispatcher \<^verbatim>\<open>runCommand\<close>, the I2C handlers and the three
  USB mass-storage callbacks. The sketch's globals are the fields of one record; every
  call into a library (Serial, Wire, the flash, the FAT file system, the MachXO
  programmer, the pins) is appended to a trace, and what a library hands back is read
  from fields of the record that the sketch never writes. The targets are 32-bit ARM
  boards: \<^verbatim>\<open>int\<close> and \<^verbatim>\<open>unsigned long\<close> have 32 bits and plain \<^verbatim>\<open>char\<close> is unsigned.
\<close>

subsection \<open>Failures, pins and the trace of library calls\<close>

text \<open>
  The only failure of the sketch itself is the use of a null pointer where a string is
  read (\<^verbatim>\<open>p[0]\<close>, or a library routine that reads its argument); a store outside
  \<^verbatim>\<open>commandBuf\<close> is the second one the model can report.
\<close>

datatype error = NullDeref | OutOfBounds

datatype pin = LED_BUILTIN | XO_PRGMN

datatype level = LOW | HIGH

datatype pin_mode = OUTPUT | INPUT_PULLUP

datatype xo_query = DeviceID | UserCode | FeatureRow | FeatureBits | Status

datatype event =
    Serial_print string
  | Serial_print_int int
  | Serial_println string
  | Serial_println_int int
  | Serial_println_empty
  | Serial_write char
  | Wire_beginTransmission "8 word"
  | Wire_write "8 word"
  | Wire_endTransmission bool
  | Wire_requestFrom "8 word" int
  | Wire_available
  | Wire_read
  | DigitalWrite pin level
  | PinMode pin pin_mode
  | Delay nat
  | Changed_assign bool
  | Flash_readBlocks "32 word" nat "32 word"
  | Flash_writeBlocks "32 word" nat "32 word"
  | Flash_syncBlocks
  | Fatfs_cacheClear
  | Root_open string
  | Root_close
  | File_openNext
  | File_printFileSize nat
  | File_printName string
  | File_open string
  | File_close
  | MachXO_read xo_query
  | MachXO_enableConfigOffline
  | MachXO_refresh
  | MachXO_erase
  | MachXO_waitBusy
  | MachXO_loadHex
  | MachXO_programDone

text \<open>One entry of the root directory: file size, name, and whether it is a directory.\<close>

type_synonym dir_entry = "nat \<times> string \<times> bool"

record state =
  commandBuf :: "char list"
  charCnt :: int
  i2cSlaveAddress :: "8 word"
  changed :: bool
  strtok_save :: string
  trace :: "event list"
  wire_rx :: "8 word list"
  i2c_replies :: "8 word list list"
  flash_read_ok :: "32 word \<Rightarrow> 32 word \<Rightarrow> bool"
  flash_write_ok :: "32 word \<Rightarrow> 32 word \<Rightarrow> bool"
  fs_root :: "dir_entry list option"
  fs_can_open :: "string \<Rightarrow> bool"
  machXO_data :: "xo_query \<Rightarrow> 8 word list"
  stack_junk :: "8 word list"

definition emit :: "event \<Rightarrow> state \<Rightarrow> state" where
  "emit e st = st\<lparr>trace := trace st @ [e]\<rparr>"

definition COMMAND_BUFFER_LENGTH :: int where
  "COMMAND_BUFFER_LENGTH = 127"

definition RD1124_I2C_ADDR :: "8 word" where
  "RD1124_I2C_ADDR = 0x41"

subsection \<open>The C library: strtok and strtoul\<close>

text \<open>
  \<^verbatim>\<open>const char *delimiters = ", \t"\<close>. A C string stops at its first NUL.
\<close>

definition delimiters :: string where
  "delimiters = [CHR '','', CHR '' '', CHR 0x09]"

definition is_delim :: "char \<Rightarrow> bool" where
  "is_delim c \<longleftrightarrow> c \<in> set delimiters"

definition c_str :: "char list \<Rightarrow> string" where
  "c_str buf = takeWhile (\<lambda>c. c \<noteq> CHR 0x00) buf"

text \<open>
  \<^verbatim>\<open>strtok\<close> skips delimiters, returns the token that follows (NULL, here \<open>None\<close>, when
  there is none) and remembers where to go on: \<^verbatim>\<open>strtok_save\<close> is the text after the
  delimiter that ended the token, empty once the string is used up. The NUL that strtok
  stores over that delimiter is what ends the returned token; the model returns the token
  as a string of its own and leaves \<^verbatim>\<open>commandBuf\<close> as typed, since the sketch reads the
  buffer again only after the next line has been written over it from index 0 and
  terminated anew.
\<close>

definition strtok_scan :: "string \<Rightarrow> string option \<times> string" where
  "strtok_scan s =
     (let t = dropWhile is_delim s in
      if t = [] then (None, [])
      else (Some (takeWhile (\<lambda>c. \<not> is_delim c) t),
            drop 1 (dropWhile (\<lambda>c. \<not> is_delim c) t)))"

definition strtok_buf :: "state \<Rightarrow> string option \<times> state" where
  "strtok_buf st =
     (let (tok, rest) = strtok_scan (c_str (commandBuf st))
      in (tok, st\<lparr>strtok_save := rest\<rparr>))"

definition strtok_NULL :: "state \<Rightarrow> string option \<times> state" where
  "strtok_NULL st =
     (let (tok, rest) = strtok_scan (strtok_save st)
      in (tok, st\<lparr>strtok_save := rest\<rparr>))"

text \<open>
  \<^verbatim>\<open>strtoul(nptr, &endptr, 0)\<close> as ISO C describes it, for a 32-bit \<^verbatim>\<open>unsigned long\<close>:
  white space is skipped, a sign is optional, the base is 16 after \<^verbatim>\<open>0x\<close> followed by a
  hexadecimal digit, 8 after \<^verbatim>\<open>0\<close> and 10 otherwise; the longest run of digits of that
  base is converted, a value that does not fit gives \<^verbatim>\<open>ULONG_MAX\<close>, a minus sign negates
  modulo \<open>2 ^ 32\<close>. The result is the value and \<^verbatim>\<open>endptr - nptr\<close>, which is 0 when nothing
  was converted.
\<close>

definition isspace :: "char \<Rightarrow> bool" where
  "isspace c \<longleftrightarrow> c \<in> set [CHR '' '', CHR 0x09, CHR 0x0A, CHR 0x0B, CHR 0x0C, CHR 0x0D]"

definition digit_of :: "char \<Rightarrow> int option" where
  "digit_of c =
     (let n = (of_char c :: int) in
      if 48 \<le> n \<and> n \<le> 57 then Some (n - 48)
      else if 65 \<le> n \<and> n \<le> 90 then Some (n - 55)
      else if 97 \<le> n \<and> n \<le> 122 then Some (n - 87)
      else None)"

fun digits_prefix :: "int \<Rightarrow> string \<Rightarrow> int list" where
  "digits_prefix b [] = []"
| "digits_prefix b (c # cs) =
     (case digit_of c of
        None \<Rightarrow> []
      | Some d \<Rightarrow> if d < b then d # digits_prefix b cs else [])"

definition digits_value :: "int \<Rightarrow> int list \<Rightarrow> int" where
  "digits_value b ds = foldl (\<lambda>acc d. acc * b + d) 0 ds"

definition hex_prefixed :: "string \<Rightarrow> bool" where
  "hex_prefixed s =
     (case s of
        z # x # h # _ \<Rightarrow>
          z = CHR ''0'' \<and> (x = CHR ''x'' \<or> x = CHR ''X'') \<and> digits_prefix 16 [h] \<noteq> []
      | _ \<Rightarrow> False)"

definition strtoul :: "string \<Rightarrow> 32 word \<times> nat" where
  "strtoul nptr =
     (let s1 = dropWhile isspace nptr;
          neg = (take 1 s1 = ''-'');
          s2 = (if take 1 s1 = ''-'' \<or> take 1 s1 = ''+'' then drop 1 s1 else s1);
          base = (if hex_prefixed s2 then 16 else if take 1 s2 = ''0'' then 8 else 10);
          s3 = (if hex_prefixed s2 then drop 2 s2 else s2);
          ds = digits_prefix base s3;
          v = digits_value base ds
      in if ds = [] then (0, 0)
         else ((if v \<ge> 2 ^ 32 then - 1 else if neg then - of_int v else of_int v),
               length nptr - length s3 + length ds))"

subsection \<open>The I2C handlers\<close>

text \<open>
  \<^verbatim>\<open>Wire.requestFrom\<close> fills the receive buffer with what the bus delivers: the next
  entry of \<^verbatim>\<open>i2c_replies\<close>, nothing when there is none. \<^verbatim>\<open>Wire.available\<close> is the
  number of bytes in the buffer and \<^verbatim>\<open>Wire.read\<close> takes the first one, or returns -1.
\<close>

definition next_reply :: "state \<Rightarrow> 8 word list" where
  "next_reply st = (case i2c_replies st of [] \<Rightarrow> [] | r # _ \<Rightarrow> r)"

definition Wire_requestFrom_call :: "8 word \<Rightarrow> int \<Rightarrow> state \<Rightarrow> state" where
  "Wire_requestFrom_call addr cnt st =
     (emit (Wire_requestFrom addr cnt) st)
       \<lparr>wire_rx := next_reply st,
        i2c_replies := drop 1 (i2c_replies st)\<rparr>"

definition Wire_available_call :: "state \<Rightarrow> int \<times> state" where
  "Wire_available_call st = (int (length (wire_rx st)), emit Wire_available st)"

definition Wire_read_call :: "state \<Rightarrow> int \<times> state" where
  "Wire_read_call st =
     (case wire_rx st of
        [] \<Rightarrow> (- 1, emit Wire_read st)
      | b # bs \<Rightarrow> (uint b, (emit Wire_read st)\<lparr>wire_rx := bs\<rparr>))"

text \<open>\<^verbatim>\<open>%X\<close> of an \<^verbatim>\<open>int\<close> argument: the digits of its 32-bit unsigned reading.\<close>

definition hex_digit :: "nat \<Rightarrow> char" where
  "hex_digit d = ''0123456789ABCDEF'' ! (d mod 16)"

fun hex_digits :: "nat \<Rightarrow> string" where
  "hex_digits n =
     (if n < 16 then [hex_digit n] else hex_digits (n div 16) @ [hex_digit (n mod 16)])"

declare hex_digits.simps [simp del]

definition fmt_02X :: "int \<Rightarrow> string" where
  "fmt_02X v =
     (let s = hex_digits (nat (v mod 2 ^ 32)) in replicate (2 - length s) CHR ''0'' @ s)"

definition i2cAddr :: "8 word \<Rightarrow> state \<Rightarrow> state" where
  "i2cAddr addr st =
     (let st1 = st\<lparr>i2cSlaveAddress := addr\<rparr>;
          st2 = emit (Serial_print ''I2C Slave Address set to:  '') st1
      in emit (Serial_println_int (uint (i2cSlaveAddress st2))) st2)"

fun i2cRead_loop :: "nat \<Rightarrow> state \<Rightarrow> state" where
  "i2cRead_loop 0 st = st"
| "i2cRead_loop (Suc n) st =
     (let (v, st1) = Wire_read_call st
      in i2cRead_loop n (emit (Serial_print (''0x'' @ fmt_02X v @ '' '')) st1))"

definition i2cRead :: "int \<Rightarrow> state \<Rightarrow> state" where
  "i2cRead cnt st =
     (let st1 = emit (Serial_print ''Reading '') st;
          st2 = emit (Serial_print_int cnt) st1;
          st3 = emit (Serial_print '' bytes from '') st2;
          st4 = emit (Serial_println_int (uint (i2cSlaveAddress st3))) st3;
          st5 = Wire_requestFrom_call (i2cSlaveAddress st4) cnt st4;
          (avail, st6) = Wire_available_call st5;
          st7 = (if avail \<ge> cnt then i2cRead_loop (nat cnt) st6 else st6)
      in emit Serial_println_empty st7)"

definition nextByte :: "state \<Rightarrow> int \<times> state" where
  "nextByte st =
     (case strtok_NULL st of
        (None, st1) \<Rightarrow> (- 1, st1)
      | (Some nptr, st1) \<Rightarrow>
          (let (ul, consumed) = strtoul nptr
           in if consumed = 0 then (- 1, st1)
              else if ul < 256 then (uint ul, st1)
              else (- 1, st1)))"

lemma strtok_scan_shorter: "strtok_scan s = (Some t, r) \<Longrightarrow> length r < length s"
proof -
  assume a: "strtok_scan s = (Some t, r)"
  define u where "u = dropWhile is_delim s"
  from a have ne: "u \<noteq> []" and r: "r = drop 1 (dropWhile (\<lambda>c. \<not> is_delim c) u)"
    by (auto simp: strtok_scan_def Let_def u_def split: if_splits)
  have "length (dropWhile (\<lambda>c. \<not> is_delim c) u) \<le> length u"
    by (rule length_dropWhile_le)
  with ne have "length r < length u"
    by (cases u) (auto simp: r)
  moreover have "length u \<le> length s"
    unfolding u_def by (rule length_dropWhile_le)
  ultimately show ?thesis by simp
qed

lemma nextByte_shorter:
  "0 \<le> fst (nextByte st) \<Longrightarrow>
   length (strtok_save (snd (nextByte st))) < length (strtok_save st)"
  by (auto simp: nextByte_def strtok_NULL_def Let_def
           split: prod.splits option.splits if_splits dest: strtok_scan_shorter)

text \<open>
  The \<^verbatim>\<open>while (nextData >= 0)\<close> loop of \<^verbatim>\<open>i2cWrite\<close>. Every token that \<^verbatim>\<open>nextByte\<close>
  accepts shortens what strtok has left, so the loop ends.
\<close>

function i2cWrite_loop :: "int \<Rightarrow> int \<Rightarrow> state \<Rightarrow> int \<times> state" where
  "i2cWrite_loop nextData dataCnt st =
     (if nextData \<ge> 0 then
        i2cWrite_loop
          (fst (nextByte (emit (Wire_write (of_int nextData)) st)))
          (dataCnt + 1)
          (snd (nextByte (emit (Wire_write (of_int nextData)) st)))
      else (dataCnt, st))"
  by pat_completeness auto
termination
proof (relation "measure (\<lambda>(nextData, dataCnt, st).
          if nextData \<ge> 0 then Suc (length (strtok_save st)) else 0)")
  show "wf (measure (\<lambda>(nextData, dataCnt, st).
          if nextData \<ge> 0 then Suc (length (strtok_save st)) else 0))"
    by simp
next
  fix nextData dataCnt :: int and st :: state
  assume "0 \<le> nextData"
  moreover have "strtok_save (emit (Wire_write (of_int nextData)) st) = strtok_save st"
    by (simp add: emit_def)
  ultimately show "((fst (nextByte (emit (Wire_write (of_int nextData)) st)), dataCnt + 1,
            snd (nextByte (emit (Wire_write (of_int nextData)) st))),
           nextData, dataCnt, st)
          \<in> measure (\<lambda>(nextData, dataCnt, st).
               if nextData \<ge> 0 then Suc (length (strtok_save st)) else 0)"
    using nextByte_shorter [of "emit (Wire_write (of_int nextData)) st"] by simp
qed

declare i2cWrite_loop.simps [simp del]

definition i2cWrite :: "bool \<Rightarrow> state \<Rightarrow> state" where
  "i2cWrite sendStop st =
     (let (nextData, st1) = nextByte st in
      if nextData \<ge> 0 then
        (let st2 = emit (Wire_beginTransmission (i2cSlaveAddress st1)) st1;
             (dataCnt, st3) = i2cWrite_loop nextData 0 st2;
             st4 = emit (Wire_endTransmission sendStop) st3;
             st5 = emit (Serial_print ''Wrote '') st4;
             st6 = emit (Serial_print_int dataCnt) st5
         in emit (Serial_println '' bytes'') st6)
      else emit (Serial_println ''nothing to write'') st1)"

definition i2cGet :: "int \<Rightarrow> state \<Rightarrow> state" where
  "i2cGet cnt st = i2cRead cnt (i2cWrite False st)"

primrec println_all :: "string list \<Rightarrow> state \<Rightarrow> state" where
  "println_all [] st = st"
| "println_all (l # ls) st = println_all ls (emit (Serial_println l) st)"

definition i2cHelp :: "state \<Rightarrow> state" where
  "i2cHelp st = println_all
     [''I2C Interface'',
      ''Implemented commands:'',
      ''I/i A/a addr  - Set I2C slave address'',
      ''I/i W/w byte byte ... - Write bytes to I2C'',
      ''I/i F/f byte byte ... - Write bytes to I2C (stop=false)'',
      ''I/i R/r cnt - Read cnt bytes from I2C'',
      ''I/i G/g cnt byte byte ... - Get cnt bytes after writing remaining bytes''] st"

text \<open>
  \<^verbatim>\<open>p[0]\<close> of a string: its first character, the terminating NUL when it is empty.
  \<^verbatim>\<open>strtoul(p, NULL, 0)\<close> reads \<^verbatim>\<open>p\<close>, so a null \<^verbatim>\<open>p\<close> is a null dereference.
\<close>

definition first_char :: "string \<Rightarrow> char" where
  "first_char s = (case s of [] \<Rightarrow> CHR 0x00 | c # _ \<Rightarrow> c)"

definition strtoul_ptr :: "string option \<Rightarrow> error + 32 word" where
  "strtoul_ptr p = (case p of None \<Rightarrow> Inl NullDeref | Some s \<Rightarrow> Inr (fst (strtoul s)))"

definition i2cTrans :: "string option \<Rightarrow> state \<Rightarrow> error + state" where
  "i2cTrans p st =
     (case p of
        None \<Rightarrow> Inl NullDeref
      | Some i2cCmd \<Rightarrow>
          (let c = first_char i2cCmd in
           if c = CHR ''A'' \<or> c = CHR ''a'' then
             (let (tok, st1) = strtok_NULL st in
              case strtoul_ptr tok of
                Inl e \<Rightarrow> Inl e
              | Inr ul \<Rightarrow> Inr (i2cAddr (ucast ul) st1))
           else if c = CHR ''G'' \<or> c = CHR ''g'' then
             (let (tok, st1) = strtok_NULL st in
              case strtoul_ptr tok of
                Inl e \<Rightarrow> Inl e
              | Inr ul \<Rightarrow> Inr (i2cGet (sint ul) st1))
           else if c = CHR ''R'' \<or> c = CHR ''r'' then
             (let (tok, st1) = strtok_NULL st in
              case strtoul_ptr tok of
                Inl e \<Rightarrow> Inl e
              | Inr ul \<Rightarrow> Inr (i2cRead (sint ul) st1))
           else if c = CHR ''W'' \<or> c = CHR ''w'' then Inr (i2cWrite True st)
           else if c = CHR ''F'' \<or> c = CHR ''f'' then Inr (i2cWrite False st)
           else
             Inr (i2cHelp (emit (Serial_println i2cCmd)
                    (emit (Serial_print ''Unknown command:  '') st)))))"

subsection \<open>The MachXO handlers, the directory listing and the help text\<close>

text \<open>
  A local \<^verbatim>\<open>uint8_t dataBuf[n]\<close> starts with whatever the stack holds; a read of the
  programmer overwrites its front with the bytes the device returns.
\<close>

definition uninit_buf :: "nat \<Rightarrow> state \<Rightarrow> 8 word list" where
  "uninit_buf n st = take n (stack_junk st @ replicate n 0)"

definition fill_buf :: "8 word list \<Rightarrow> 8 word list \<Rightarrow> 8 word list" where
  "fill_buf buf bytes = take (length buf) (bytes @ drop (length bytes) buf)"

definition machXO_read_call :: "xo_query \<Rightarrow> 8 word list \<Rightarrow> state \<Rightarrow> 8 word list \<times> state" where
  "machXO_read_call q buf st = (fill_buf buf (machXO_data st q), emit (MachXO_read q) st)"

primrec print_each_02X :: "8 word list \<Rightarrow> state \<Rightarrow> state" where
  "print_each_02X [] st = st"
| "print_each_02X (b # bs) st = print_each_02X bs (emit (Serial_print (fmt_02X (uint b))) st)"

definition printBufHEX :: "string \<Rightarrow> 8 word list \<Rightarrow> nat \<Rightarrow> state \<Rightarrow> state" where
  "printBufHEX msg buf cnt st =
     emit Serial_println_empty
       (print_each_02X (take cnt buf)
          (emit (Serial_print ''0x'') (emit (Serial_print msg) st)))"

definition xoDetails :: "state \<Rightarrow> state" where
  "xoDetails st =
     (let dataBuf = uninit_buf 8 st;
          (dataBuf, st) = machXO_read_call DeviceID dataBuf st;
          st = printBufHEX ''Device ID:  '' dataBuf 4 st;
          (dataBuf, st) = machXO_read_call UserCode dataBuf st;
          st = printBufHEX ''User Code:  '' dataBuf 4 st;
          (dataBuf, st) = machXO_read_call FeatureRow dataBuf st;
          st = printBufHEX ''Feature Row:  '' dataBuf 8 st;
          (dataBuf, st) = machXO_read_call FeatureBits dataBuf st;
          st = printBufHEX ''Feature Bits:  '' dataBuf 2 st;
          (dataBuf, st) = machXO_read_call Status dataBuf st
      in printBufHEX ''Status:  '' dataBuf 4 st)"

definition xoStatus :: "state \<Rightarrow> state" where
  "xoStatus st =
     (let (dataBuf, st1) = machXO_read_call Status (uninit_buf 4 st) st
      in printBufHEX ''Status:  '' dataBuf 4 st1)"

definition xoConfig :: "state \<Rightarrow> state" where
  "xoConfig st =
     emit (Serial_println ''Enabled Offline Configuration'') (emit MachXO_enableConfigOffline st)"

definition xoRefresh :: "state \<Rightarrow> state" where
  "xoRefresh st =
     emit (Serial_println ''Refreshed MachXO Configuration'') (emit MachXO_refresh st)"

definition xoErase :: "state \<Rightarrow> state" where
  "xoErase st =
     emit (Serial_println ''Erased Configuration and UFM'')
       (emit MachXO_waitBusy
          (emit (Serial_println ''Erasing...'') (emit MachXO_erase st)))"

definition xoProgPin :: "string option \<Rightarrow> state \<Rightarrow> error + state" where
  "xoProgPin p st =
     (case p of
        None \<Rightarrow> Inl NullDeref
      | Some prog \<Rightarrow>
          (let c = first_char prog in
           if c = CHR ''0'' \<or> c = CHR ''L'' \<or> c = CHR ''l'' then
             Inr (emit (Serial_println ''Program_N pin low'')
                    (emit (PinMode XO_PRGMN OUTPUT) (emit (DigitalWrite XO_PRGMN LOW) st)))
           else
             Inr (emit (Serial_println ''Program_N pin high'')
                    (emit (PinMode XO_PRGMN INPUT_PULLUP) st))))"

text \<open>
  \<^verbatim>\<open>file.open\<close> walks the path it is given, so a null file name is a null dereference
  inside the file system library.
\<close>

definition xoLoadHEX :: "string option \<Rightarrow> state \<Rightarrow> error + state" where
  "xoLoadHEX p st =
     (case p of
        None \<Rightarrow> Inl NullDeref
      | Some filename \<Rightarrow>
          (let st1 = emit (File_open filename) st in
           if \<not> fs_can_open st1 filename then
             Inr (emit (Serial_println filename) (emit (Serial_print ''Failed to open '') st1))
           else
             (let st2 = emit (Serial_println filename) (emit (Serial_print ''Opened '') st1);
                  st3 = emit File_close (emit MachXO_loadHex st2);
                  st4 = emit (Serial_println filename) (emit (Serial_print ''Loaded '') st3)
              in Inr (emit MachXO_programDone st4))))"

primrec Wire_write_all :: "8 word list \<Rightarrow> state \<Rightarrow> state" where
  "Wire_write_all [] st = st"
| "Wire_write_all (b # bs) st = Wire_write_all bs (emit (Wire_write b) st)"

fun read_into :: "nat \<Rightarrow> 8 word list \<Rightarrow> state \<Rightarrow> 8 word list \<times> state" where
  "read_into 0 acc st = (acc, st)"
| "read_into (Suc n) acc st =
     (let (v, st1) = Wire_read_call st in read_into n (acc @ [of_int v]) st1)"

definition rd1124MemTst :: "state \<Rightarrow> state" where
  "rd1124MemTst st =
     (let dataBuf = uninit_buf 8 st;
          st = emit (Wire_beginTransmission RD1124_I2C_ADDR) st;
          st = Wire_write_all [0x02, 0x00, 0x00, 0x01, 0x02, 0x03, 0x04, 0x05, 0x06, 0x07] st;
          st = emit (Wire_endTransmission True) st;
          st = emit (Wire_beginTransmission RD1124_I2C_ADDR) st;
          st = Wire_write_all [0x02, 0x08, 0x10, 0x11, 0x12, 0x13, 0x14, 0x15, 0x16, 0x17] st;
          st = emit (Wire_endTransmission True) st;
          st = emit (Serial_println ''Filled with:  0x00-0x07, 0x10-0x17'') st;
          st = emit (Wire_beginTransmission RD1124_I2C_ADDR) st;
          st = Wire_write_all [0x0B, 0x04] st;
          (nb, st) = nextByte st;
          st = emit (Wire_endTransmission (nb > 0)) st;
          st = Wire_requestFrom_call RD1124_I2C_ADDR 8 st;
          (avail, st) = Wire_available_call st;
          (dataBuf, st) = (if avail \<ge> 8 then
                             (let (bytes, st1) = read_into 8 [] st in (fill_buf dataBuf bytes, st1))
                           else (dataBuf, st))
      in printBufHEX ''Read back from 0x04:  '' dataBuf 8 st)"

text \<open>The \<^verbatim>\<open>while (file.openNext(&root, O_RDONLY))\<close> loop: the last call finds no entry.\<close>

fun printDir_loop :: "dir_entry list \<Rightarrow> state \<Rightarrow> state" where
  "printDir_loop [] st = emit File_openNext st"
| "printDir_loop ((sz, name, is_dir) # es) st =
     (let st1 = emit File_openNext st;
          st2 = emit (File_printFileSize sz) st1;
          st3 = emit (Serial_write CHR '' '') st2;
          st4 = emit (File_printName name) st3;
          st5 = (if is_dir then emit (Serial_write CHR ''/'') st4 else st4);
          st6 = emit Serial_println_empty st5
      in printDir_loop es (emit File_close st6))"

definition printDir :: "state \<Rightarrow> state" where
  "printDir st =
     (let st1 = emit (Root_open ''/'') st in
      case fs_root st1 of
        None \<Rightarrow> emit (Serial_println ''open root failed'') st1
      | Some es \<Rightarrow>
          emit Serial_println_empty
            (emit Root_close
               (printDir_loop es (emit (Serial_println ''Flash contents:'') st1))))"

definition printHelp :: "state \<Rightarrow> state" where
  "printHelp st = println_all
     [''MachXO Programming Example Command Interface'',
      ''Valid commands:'',
      ''H/h/? - Print this help information'',
      ''D/d   - Print root directory'',
      ''X/x   - MachXO Device Details'',
      ''S/s   - MaxhXO Status'',
      ''C/c   - MaxhXO enable offline Configuration'',
      ''E/e   - MaxhXO Erase configuration and UFM'',
      ''R/r   - MachXO Refresh'',
      ''P/p [0/low/1/high] - MachXO PROGRAMN pin'',
      ''L/l [filename] - MachXO Load hex file'',
      ''I/i [command] - I2C transaction commands'',
      ''M/m [0/1] - MachXO RD1124 memory test''] st"

subsection \<open>The dispatcher\<close>

definition runCommand :: "state \<Rightarrow> error + state" where
  "runCommand st =
     (case strtok_buf st of
        (None, st1) \<Rightarrow> Inl NullDeref
      | (Some commandName, st1) \<Rightarrow>
          (let c = first_char commandName in
           if c = CHR ''H'' \<or> c = CHR ''h'' \<or> c = CHR ''?'' then Inr (printHelp st1)
           else if c = CHR ''X'' \<or> c = CHR ''x'' then Inr (xoDetails st1)
           else if c = CHR ''S'' \<or> c = CHR ''s'' then Inr (xoStatus st1)
           else if c = CHR ''C'' \<or> c = CHR ''c'' then Inr (xoConfig st1)
           else if c = CHR ''E'' \<or> c = CHR ''e'' then Inr (xoErase st1)
           else if c = CHR ''R'' \<or> c = CHR ''r'' then Inr (xoRefresh st1)
           else if c = CHR ''L'' \<or> c = CHR ''l'' then
             (let (tok, st2) = strtok_NULL st1 in xoLoadHEX tok st2)
           else if c = CHR ''P'' \<or> c = CHR ''p'' then
             (let (tok, st2) = strtok_NULL st1 in xoProgPin tok st2)
           else if c = CHR ''M'' \<or> c = CHR ''m'' then Inr (rd1124MemTst st1)
           else if c = CHR ''I'' \<or> c = CHR ''i'' then
             (let (tok, st2) = strtok_NULL st1 in i2cTrans tok st2)
           else if c = CHR ''D'' \<or> c = CHR ''d'' then Inr (printDir st1)
           else
             Inr (printHelp (emit (Serial_println commandName)
                    (emit (Serial_print ''Unknown command:  '') st1)))))"

subsection \<open>The main loop and its line buffer\<close>

text \<open>
  \<^verbatim>\<open>commandBuf[i] = c\<close>: a store into the array, which has
  \<^verbatim>\<open>COMMAND_BUFFER_LENGTH + 1\<close> elements; a store outside it is reported.
\<close>

definition buf_store :: "int \<Rightarrow> char \<Rightarrow> state \<Rightarrow> error + state" where
  "buf_store i c st =
     (if 0 \<le> i \<and> i < int (length (commandBuf st))
      then Inr (st\<lparr>commandBuf := (commandBuf st)[nat i := c]\<rparr>)
      else Inl OutOfBounds)"

definition and_then :: "error + 'a \<Rightarrow> ('a \<Rightarrow> error + 'b) \<Rightarrow> error + 'b" where
  "and_then m f = (case m of Inl e \<Rightarrow> Inl e | Inr x \<Rightarrow> f x)"

text \<open>The body of \<^verbatim>\<open>switch (c)\<close> for one character read from the serial port.\<close>

definition loop_char :: "char \<Rightarrow> state \<Rightarrow> error + state" where
  "loop_char c st =
     (if c = CHR 0x0D \<or> c = CHR 0x0A then
        and_then (buf_store (charCnt st) (CHR 0x00) st) (\<lambda>st1.
          if charCnt st1 > 0
          then and_then (runCommand st1) (\<lambda>st2. Inr (st2\<lparr>charCnt := 0\<rparr>))
          else Inr st1)
      else if c = CHR 0x08 then
        (if charCnt st > 0 then
           and_then (buf_store (charCnt st - 1) (CHR 0x00) (st\<lparr>charCnt := charCnt st - 1\<rparr>))
             (\<lambda>st1. Inr (emit (Serial_write (CHR 0x08))
                       (emit (Serial_write CHR '' '') (emit (Serial_write (CHR 0x08)) st1))))
         else Inr st)
      else
        and_then
          (if charCnt st < COMMAND_BUFFER_LENGTH
           then and_then (buf_store (charCnt st) c st) (\<lambda>st1. Inr (st1\<lparr>charCnt := charCnt st1 + 1\<rparr>))
           else Inr st)
          (\<lambda>st1. buf_store (charCnt st1) (CHR 0x00) st1))"

text \<open>\<^verbatim>\<open>while (Serial.available())\<close> over the characters that are waiting.\<close>

primrec drain :: "string \<Rightarrow> state \<Rightarrow> error + state" where
  "drain [] st = Inr st"
| "drain (c # cs) st = and_then (loop_char c st) (drain cs)"

definition set_changed :: "bool \<Rightarrow> state \<Rightarrow> state" where
  "set_changed b st = emit (Changed_assign b) (st\<lparr>changed := b\<rparr>)"

definition loop :: "string \<Rightarrow> state \<Rightarrow> error + state" where
  "loop pending st =
     and_then (drain pending st) (\<lambda>st1.
       Inr (emit (Delay 100)
              (if changed st1 then printDir (set_changed False st1) else st1)))"

subsection \<open>The USB mass-storage callbacks\<close>

text \<open>
  The buffer is passed on as the address it is; \<^verbatim>\<open>bufsize/512\<close> is an unsigned 32-bit
  division. The result type is \<^verbatim>\<open>int32_t\<close>: the word returned is read with \<open>sint\<close>.
\<close>

definition msc_read_cb :: "32 word \<Rightarrow> nat \<Rightarrow> 32 word \<Rightarrow> state \<Rightarrow> 32 word \<times> state" where
  "msc_read_cb lba buffer bufsize st =
     (let st1 = emit (Flash_readBlocks lba buffer (bufsize div 512)) st
      in (if flash_read_ok st lba (bufsize div 512) then bufsize else - 1, st1))"

definition msc_write_cb :: "32 word \<Rightarrow> nat \<Rightarrow> 32 word \<Rightarrow> state \<Rightarrow> 32 word \<times> state" where
  "msc_write_cb lba buffer bufsize st =
     (let st1 = emit (DigitalWrite LED_BUILTIN HIGH) st;
          st2 = emit (Flash_writeBlocks lba buffer (bufsize div 512)) st1
      in (if flash_write_ok st lba (bufsize div 512) then bufsize else - 1, st2))"

definition msc_flush_cb :: "state \<Rightarrow> state" where
  "msc_flush_cb st =
     (let st1 = emit Flash_syncBlocks st;
          st2 = emit Fatfs_cacheClear st1;
          st3 = set_changed True st2
      in emit (DigitalWrite LED_BUILTIN LOW) st3)"

subsection \<open>Notions the properties are stated with\<close>

text \<open>
  The token stream of a write: the values that successive calls of \<^verbatim>\<open>nextByte\<close> return
  before the first \<open>-1\<close>.
\<close>

function token_stream :: "state \<Rightarrow> int list" where
  "token_stream st =
     (if fst (nextByte st) \<ge> 0
      then fst (nextByte st) # token_stream (snd (nextByte st))
      else [])"
  by pat_completeness auto
termination
  by (relation "measure (\<lambda>st. length (strtok_save st))") (auto dest: nextByte_shorter)

declare token_stream.simps [simp del]

text \<open>
  A line with its backspaces applied, as the specification words it: a backspace removes
  the character before it, and nothing when there is none. The first argument is the
  line typed so far.
\<close>

fun apply_backspaces :: "string \<Rightarrow> string \<Rightarrow> string" where
  "apply_backspaces acc [] = acc"
| "apply_backspaces acc (c # cs) =
     (if c = CHR 0x08 then apply_backspaces (butlast acc) cs
      else apply_backspaces (acc @ [c]) cs)"

definition is_terminator :: "char \<Rightarrow> bool" where
  "is_terminator c \<longleftrightarrow> c = CHR 0x0D \<or> c = CHR 0x0A"

text \<open>
  The lines an input completes, as the specification words the line buffer: a terminator
  yields the line typed since the previous one unless that line is empty, a backspace
  removes the last character of the line if there is one, any other character is
  appended. \<open>pending_line\<close> is what is left typed after the last terminator. The first
  argument is the line typed so far.
\<close>

fun completed_lines :: "string \<Rightarrow> string \<Rightarrow> string list" where
  "completed_lines acc [] = []"
| "completed_lines acc (c # cs) =
     (if is_terminator c then (if acc = [] then [] else [acc]) @ completed_lines [] cs
      else if c = CHR 0x08 then completed_lines (butlast acc) cs
      else completed_lines (acc @ [c]) cs)"

fun pending_line :: "string \<Rightarrow> string \<Rightarrow> string" where
  "pending_line acc [] = acc"
| "pending_line acc (c # cs) =
     (if is_terminator c then pending_line [] cs
      else if c = CHR 0x08 then pending_line (butlast acc) cs
      else pending_line (acc @ [c]) cs)"

text \<open>What the loop sends to the terminal for a backspace that removes a character.\<close>

definition bs_echo :: "event list" where
  "bs_echo = [Serial_write (CHR 0x08), Serial_write CHR '' '', Serial_write (CHR 0x08)]"

text \<open>
  What \<^verbatim>\<open>i2cRead\<close> does for one received byte: take it from the bus library and
  print it as \<^verbatim>\<open>"0x%02X "\<close>.
\<close>

definition byte_events :: "8 word \<Rightarrow> event list" where
  "byte_events b = [Wire_read, Serial_print (''0x'' @ fmt_02X (uint b) @ '' '')]"

text \<open>
  The globals as \<^verbatim>\<open>setup\<close> leaves them (address \<open>0x41\<close>, \<^verbatim>\<open>changed\<close> set, an empty
  line), in an environment where the flash calls succeed, the root directory holds one
  file, and the I2C device answers the first request with three bytes.
\<close>

definition after_setup :: state where
  "after_setup =
     \<lparr>commandBuf = replicate 128 (CHR 0x00), charCnt = 0, i2cSlaveAddress = 0x41,
      changed = True, strtok_save = [], trace = [], wire_rx = [],
      i2c_replies = [[0xA1, 0xB2, 0xC3]],
      flash_read_ok = (\<lambda>lba n. True), flash_write_ok = (\<lambda>lba n. True),
      fs_root = Some [(1024, ''top.hex'', False)],
      fs_can_open = (\<lambda>name. name = ''top.hex''),
      machXO_data = (\<lambda>q. []), stack_junk = []\<rparr>"

section \<open>Properties\<close>

subsection \<open>Storage bridge\<close>

text \<open>
  C1. Every call of the flush callback \<^verbatim>\<open>msc_flush_cb\<close> does four things in this order
  and nothing else: it synchronises the flash block cache, clears the file system's cache,
  sets \<^verbatim>\<open>changed\<close> (the dirty flag), and switches the LED off.
\<close>

theorem msc_flush_cb_sequence:
  "msc_flush_cb st =
     st\<lparr>changed := True,
        trace := trace st @ [Flash_syncBlocks, Fatfs_cacheClear, Changed_assign True,
                             DigitalWrite LED_BUILTIN LOW]\<rparr>"
  by (simp add: msc_flush_cb_def set_changed_def emit_def)

lemma sint_small: "uint (w :: 32 word) < 2 ^ 31 \<Longrightarrow> sint w = uint w"
proof -
  assume a: "uint w < 2 ^ 31"
  have "- (2 ^ 31) \<le> (0 :: int)" by simp
  also have "0 \<le> uint w" by simp
  finally show ?thesis using a
    by (simp add: sint_uint signed_take_bit_int_eq_self_iff)
qed

lemma div512_numerals: "(511 :: 32 word) div 512 = 0 \<and> (1024 :: 32 word) div 512 = 2"
  by (simp add: word_div_def)

text \<open>
  C8. The read and the write callback pass \<open>bufsize div 512\<close> whole blocks, starting at
  \<open>lba\<close>, to the flash (none for 511 bytes, two for 1024), and return \<open>bufsize\<close> when the
  flash reports success and \<open>-1\<close> when it reports failure. The write callback switches the
  LED on first. The result is an \<^verbatim>\<open>int32_t\<close> holding the bits of \<open>bufsize\<close>: read as a
  signed number it is the size itself for every size below \<open>2 ^ 31\<close>.
\<close>

theorem msc_cb_whole_blocks:
  "msc_read_cb lba buffer bufsize st =
     (if flash_read_ok st lba (bufsize div 512) then bufsize else - 1,
      st\<lparr>trace := trace st @ [Flash_readBlocks lba buffer (bufsize div 512)]\<rparr>)
   \<and> msc_write_cb lba buffer bufsize st =
     (if flash_write_ok st lba (bufsize div 512) then bufsize else - 1,
      st\<lparr>trace := trace st @ [DigitalWrite LED_BUILTIN HIGH,
                               Flash_writeBlocks lba buffer (bufsize div 512)]\<rparr>)
   \<and> unat (bufsize div 512) = unat bufsize div 512
   \<and> (511 :: 32 word) div 512 = 0 \<and> (1024 :: 32 word) div 512 = 2
   \<and> (uint bufsize < 2 ^ 31 \<longrightarrow>
        sint (fst (msc_read_cb lba buffer bufsize st)) =
          (if flash_read_ok st lba (bufsize div 512) then uint bufsize else - 1)
      \<and> sint (fst (msc_write_cb lba buffer bufsize st)) =
          (if flash_write_ok st lba (bufsize div 512) then uint bufsize else - 1))"
  using div512_numerals
  by (simp add: msc_read_cb_def msc_write_cb_def emit_def Let_def unat_div sint_small)

theorem msc_cb_whole_blocks_witness:
  "uint (1024 :: 32 word) < 2 ^ 31
   \<and> msc_read_cb 8 0 1024 after_setup =
        (1024, after_setup\<lparr>trace := [Flash_readBlocks 8 0 2]\<rparr>)
   \<and> msc_write_cb 8 0 511 (after_setup\<lparr>flash_write_ok := (\<lambda>lba n. False)\<rparr>) =
        (- 1, after_setup\<lparr>flash_write_ok := (\<lambda>lba n. False),
               trace := [DigitalWrite LED_BUILTIN HIGH, Flash_writeBlocks 8 0 0]\<rparr>)
   \<and> sint (fst (msc_read_cb 8 0 1024 after_setup)) = 1024
   \<and> sint (fst (msc_write_cb 8 0 511 (after_setup\<lparr>flash_write_ok := (\<lambda>lba n. False)\<rparr>))) = - 1"
  using msc_cb_whole_blocks [of 8 0 1024 after_setup]
        msc_cb_whole_blocks [of 8 0 511 "after_setup\<lparr>flash_write_ok := (\<lambda>lba n. False)\<rparr>"]
        div512_numerals
  by (simp add: after_setup_def)

subsection \<open>I2C read\<close>

lemma hex_digits_small: "n < 16 \<Longrightarrow> hex_digits n = [hex_digit n]"
  by (simp add: hex_digits.simps)

lemma fmt_02X_byte:
  "fmt_02X (uint (b :: 8 word)) = [hex_digit (unat b div 16), hex_digit (unat b mod 16)]"
proof -
  have lt: "unat b < 256" using unsigned_less [of b, where 'a = nat] by simp
  have "uint b < 256" using uint_lt2p [of b] by simp
  then have u: "nat (uint b mod 4294967296) = unat b" by simp
  show ?thesis
  proof (cases "unat b < 16")
    case True
    then show ?thesis
      by (simp add: fmt_02X_def Let_def u hex_digits_small hex_digit_def)
  next
    case False
    then have "hex_digits (unat b) = hex_digits (unat b div 16) @ [hex_digit (unat b mod 16)]"
      by (subst hex_digits.simps) simp
    moreover have "unat b div 16 < 16" using lt by simp
    ultimately show ?thesis
      by (simp add: fmt_02X_def Let_def u hex_digits_small)
  qed
qed

lemma i2cRead_loop_state:
  "n \<le> length (wire_rx st) \<Longrightarrow>
   i2cRead_loop n st =
     st\<lparr>trace := trace st @ concat (map byte_events (take n (wire_rx st))),
        wire_rx := drop n (wire_rx st)\<rparr>"
proof (induction n arbitrary: st)
  case 0
  then show ?case by simp
next
  case (Suc n)
  then obtain b bs where rx: "wire_rx st = b # bs"
    by (cases "wire_rx st") auto
  with Suc.prems have "n \<le> length bs" by simp
  then show ?case
    by (simp add: rx Wire_read_call_def emit_def Suc.IH byte_events_def)
qed

lemma i2cRead_state:
  "i2cRead cnt st =
     st\<lparr>trace := trace st @
          [Serial_print ''Reading '', Serial_print_int cnt, Serial_print '' bytes from '',
           Serial_println_int (uint (i2cSlaveAddress st)),
           Wire_requestFrom (i2cSlaveAddress st) cnt, Wire_available] @
          (if cnt \<le> int (length (next_reply st))
           then concat (map byte_events (take (nat cnt) (next_reply st))) else []) @
          [Serial_println_empty],
        wire_rx := (if cnt \<le> int (length (next_reply st))
                    then drop (nat cnt) (next_reply st) else next_reply st),
        i2c_replies := drop 1 (i2c_replies st)\<rparr>"
  by (simp add: i2cRead_def Let_def Wire_requestFrom_call_def Wire_available_call_def emit_def
        i2cRead_loop_state next_reply_def)

text \<open>
  C5. \<^verbatim>\<open>i2cRead cnt\<close> requests \<open>cnt\<close> bytes from the current slave address. When the bus
  library then holds at least \<open>cnt\<close> bytes, the first \<open>cnt\<close> of them are taken and printed
  in the order received, each as \<^verbatim>\<open>0x\<close>, two upper-case hexadecimal digits and a blank;
  when it holds fewer, no byte is taken or printed.
\<close>

theorem i2cRead_all_or_nothing:
  "trace (i2cRead cnt st) =
     trace st @
     [Serial_print ''Reading '', Serial_print_int cnt, Serial_print '' bytes from '',
      Serial_println_int (uint (i2cSlaveAddress st)),
      Wire_requestFrom (i2cSlaveAddress st) cnt, Wire_available] @
     (if cnt \<le> int (length (next_reply st))
      then concat (map byte_events (take (nat cnt) (next_reply st))) else []) @
     [Serial_println_empty]
   \<and> (cnt \<le> int (length (next_reply st)) \<longrightarrow>
        length (take (nat cnt) (next_reply st)) = nat cnt)
   \<and> byte_events b =
        [Wire_read,
         Serial_print [CHR ''0'', CHR ''x'', hex_digit (unat b div 16), hex_digit (unat b mod 16),
                       CHR '' '']]"
  by (simp add: i2cRead_state byte_events_def fmt_02X_byte)

theorem i2cRead_all_or_nothing_witness:
  "(2 :: int) \<le> int (length (next_reply after_setup))
   \<and> trace (i2cRead 2 after_setup) =
       [Serial_print ''Reading '', Serial_print_int 2, Serial_print '' bytes from '',
        Serial_println_int 65, Wire_requestFrom 0x41 2, Wire_available,
        Wire_read, Serial_print ''0xA1 '', Wire_read, Serial_print ''0xB2 '',
        Serial_println_empty]
   \<and> \<not> (4 :: int) \<le> int (length (next_reply after_setup))
   \<and> trace (i2cRead 4 after_setup) =
       [Serial_print ''Reading '', Serial_print_int 4, Serial_print '' bytes from '',
        Serial_println_int 65, Wire_requestFrom 0x41 4, Wire_available,
        Serial_println_empty]"
  using i2cRead_all_or_nothing [where cnt = 2 and st = after_setup and b = "0xA1"]
        i2cRead_all_or_nothing [where cnt = 2 and st = after_setup and b = "0xB2"]
        i2cRead_all_or_nothing [where cnt = 4 and st = after_setup and b = 0]
  by (simp add: after_setup_def next_reply_def hex_digit_def)

text \<open>
  C10. Every \<^verbatim>\<open>i2cRead\<close> prints the line announcing the byte count and the slave address
  before it asks the bus and checks what is available, and ends with a newline. Between
  the check and the newline there is nothing but the per-byte reports, and none at all
  when fewer than \<open>cnt\<close> bytes are available: such a read still prints the announcement
  and an empty line.
\<close>

theorem i2cRead_always_announces:
  "\<exists>data. trace (i2cRead cnt st) =
       trace st @
       [Serial_print ''Reading '', Serial_print_int cnt, Serial_print '' bytes from '',
        Serial_println_int (uint (i2cSlaveAddress st))] @
       [Wire_requestFrom (i2cSlaveAddress st) cnt, Wire_available] @
       data @ [Serial_println_empty]
     \<and> (int (length (next_reply st)) < cnt \<longrightarrow> data = [])
     \<and> (\<forall>e \<in> set data. \<exists>b. e \<in> set (byte_events b))"
proof -
  let ?data = "if cnt \<le> int (length (next_reply st))
      then concat (map byte_events (take (nat cnt) (next_reply st))) else []"
  have "\<forall>e \<in> set ?data. \<exists>b. e \<in> set (byte_events b)"
    by (auto split: if_splits)
  moreover have "int (length (next_reply st)) < cnt \<longrightarrow> ?data = []" by simp
  moreover have "trace (i2cRead cnt st) =
       trace st @
       [Serial_print ''Reading '', Serial_print_int cnt, Serial_print '' bytes from '',
        Serial_println_int (uint (i2cSlaveAddress st))] @
       [Wire_requestFrom (i2cSlaveAddress st) cnt, Wire_available] @
       ?data @ [Serial_println_empty]"
    by (simp add: i2cRead_state)
  ultimately show ?thesis by blast
qed

theorem i2cRead_always_announces_witness:
  "int (length (next_reply after_setup)) < 4
   \<and> (\<exists>data. trace (i2cRead 4 after_setup) =
       [Serial_print ''Reading '', Serial_print_int 4, Serial_print '' bytes from '',
        Serial_println_int 65, Wire_requestFrom 0x41 4, Wire_available] @
       data @ [Serial_println_empty] \<and> data = [])"
  using i2cRead_always_announces [of 4 after_setup]
  by (simp add: after_setup_def next_reply_def)

subsection \<open>I2C write\<close>

lemma nextByte_snd: "\<exists>r. snd (nextByte st) = st\<lparr>strtok_save := r\<rparr>"
  by (auto simp: nextByte_def strtok_NULL_def Let_def split: prod.splits option.splits)

lemma nextByte_trace:
  "nextByte (st\<lparr>trace := t\<rparr>) = (fst (nextByte st), (snd (nextByte st))\<lparr>trace := t\<rparr>)"
  by (auto simp: nextByte_def strtok_NULL_def Let_def split: prod.splits option.splits)

lemma token_stream_trace: "token_stream (st\<lparr>trace := t\<rparr>) = token_stream st"
proof (induction st rule: token_stream.induct)
  case (1 st)
  show ?case
  proof (cases "0 \<le> fst (nextByte st)")
    case True
    with 1 have "token_stream ((snd (nextByte st))\<lparr>trace := t\<rparr>) = token_stream (snd (nextByte st))"
      by simp
    with True show ?thesis
      by (subst token_stream.simps, subst (2) token_stream.simps) (simp add: nextByte_trace)
  next
    case False
    then show ?thesis
      by (subst token_stream.simps, subst (2) token_stream.simps) (simp add: nextByte_trace)
  qed
qed

lemma nextByte_range: "0 \<le> fst (nextByte st) \<Longrightarrow> fst (nextByte st) < 256"
  by (auto simp: nextByte_def Let_def word_less_def split: prod.splits option.splits if_splits)

lemma token_stream_range: "v \<in> set (token_stream st) \<Longrightarrow> 0 \<le> v \<and> v < 256"
proof (induction st rule: token_stream.induct)
  case (1 st)
  from "1.prems" show ?case
    by (subst (asm) token_stream.simps) (auto split: if_splits dest: nextByte_range "1.IH")
qed

lemma i2cWrite_loop_state:
  "\<exists>r. i2cWrite_loop nextData dataCnt st =
     (if 0 \<le> nextData
      then (dataCnt + 1 + int (length (token_stream st)),
            st\<lparr>strtok_save := r,
               trace := trace st @ map (\<lambda>v. Wire_write (of_int v)) (nextData # token_stream st)\<rparr>)
      else (dataCnt, st))"
proof (induction nextData dataCnt st rule: i2cWrite_loop.induct)
  case (1 nextData dataCnt st)
  show ?case
  proof (cases "0 \<le> nextData")
    case False
    then show ?thesis by (subst i2cWrite_loop.simps) simp
  next
    case True
    let ?st1 = "emit (Wire_write (of_int nextData)) st"
    let ?nd = "fst (nextByte ?st1)"
    let ?st2 = "snd (nextByte ?st1)"
    have nd: "?nd = fst (nextByte st)"
      by (simp add: emit_def nextByte_trace)
    have st2: "?st2 = (snd (nextByte st))\<lparr>trace := trace st @ [Wire_write (of_int nextData)]\<rparr>"
      by (simp add: emit_def nextByte_trace)
    obtain r1 where r1: "snd (nextByte st) = st\<lparr>strtok_save := r1\<rparr>"
      using nextByte_snd by blast
    have ts2: "token_stream ?st2 = token_stream (snd (nextByte st))"
      by (simp add: st2 token_stream_trace)
    from "1.IH" [OF True] obtain r where
      ih: "i2cWrite_loop ?nd (dataCnt + 1) ?st2 =
            (if 0 \<le> ?nd
             then (dataCnt + 1 + 1 + int (length (token_stream ?st2)),
                   ?st2\<lparr>strtok_save := r,
                     trace := trace ?st2 @ map (\<lambda>v. Wire_write (of_int v)) (?nd # token_stream ?st2)\<rparr>)
             else (dataCnt + 1, ?st2))"
      by blast
    have unfold: "i2cWrite_loop nextData dataCnt st = i2cWrite_loop ?nd (dataCnt + 1) ?st2"
      using True by (subst i2cWrite_loop.simps) simp
    show ?thesis
    proof (cases "0 \<le> ?nd")
      case nonneg: True
      then have ts: "token_stream st = ?nd # token_stream (snd (nextByte st))"
        by (subst token_stream.simps) (simp add: nd)
      show ?thesis
        apply (rule exI [of _ r])
        using True nonneg
        apply (simp add: unfold ih ts ts2)
        apply (simp add: st2 r1)
        done
    next
      case neg: False
      then have ts: "token_stream st = []"
        by (subst token_stream.simps) (simp add: nd)
      show ?thesis
        apply (rule exI [of _ r1])
        using True neg
        apply (simp add: unfold ih ts)
        apply (simp add: st2 r1)
        done
    qed
  qed
qed


lemma token_stream_Nil: "\<not> 0 \<le> fst (nextByte st) \<Longrightarrow> token_stream st = []"
  by (subst token_stream.simps) simp

lemma token_stream_Cons:
  "0 \<le> fst (nextByte st) \<Longrightarrow>
   token_stream st = fst (nextByte st) # token_stream (snd (nextByte st))"
  by (subst token_stream.simps) simp

lemma i2cWrite_state:
  "\<exists>r. i2cWrite sendStop st =
     st\<lparr>strtok_save := r,
        trace := trace st @
          (if token_stream st = [] then [Serial_println ''nothing to write'']
           else [Wire_beginTransmission (i2cSlaveAddress st)] @
                map (\<lambda>v. Wire_write (of_int v)) (token_stream st) @
                [Wire_endTransmission sendStop, Serial_print ''Wrote '',
                 Serial_print_int (int (length (token_stream st))),
                 Serial_println '' bytes''])\<rparr>"
proof -
  obtain r1 where r1: "snd (nextByte st) = st\<lparr>strtok_save := r1\<rparr>"
    using nextByte_snd by blast
  show ?thesis
  proof (cases "0 \<le> fst (nextByte st)")
    case False
    then show ?thesis
      apply (intro exI [of _ r1])
      apply (simp add: i2cWrite_def split_beta token_stream_Nil emit_def r1)
      done
  next
    case True
    let ?st2 = "emit (Wire_beginTransmission (i2cSlaveAddress (snd (nextByte st)))) (snd (nextByte st))"
    have st2: "?st2 = st\<lparr>strtok_save := r1, trace := trace st @ [Wire_beginTransmission (i2cSlaveAddress st)]\<rparr>"
      by (simp add: r1 emit_def)
    have ts2: "token_stream ?st2 = token_stream (snd (nextByte st))"
      by (simp add: emit_def token_stream_trace)
    obtain r where loop: "i2cWrite_loop (fst (nextByte st)) 0 ?st2 =
        (0 + 1 + int (length (token_stream ?st2)),
         ?st2\<lparr>strtok_save := r,
           trace := trace ?st2 @
             map (\<lambda>v. Wire_write (of_int v)) (fst (nextByte st) # token_stream ?st2)\<rparr>)"
      using i2cWrite_loop_state [of "fst (nextByte st)" 0 ?st2] True by auto
    show ?thesis
      apply (intro exI [of _ r])
      using True
      apply (simp add: i2cWrite_def split_beta Let_def loop token_stream_Cons [OF True] ts2)
      apply (simp add: r1 emit_def)
      done
  qed
qed

text \<open>
  C6. \<^verbatim>\<open>i2cWrite\<close> (sub-commands W/w with stop, F/f without) opens no transmission when
  the token stream is empty and only reports \<^verbatim>\<open>nothing to write\<close>. Otherwise it writes
  every token of the stream, in order, between one \<^verbatim>\<open>beginTransmission\<close> and one
  \<^verbatim>\<open>endTransmission\<close>, which is given the \<^verbatim>\<open>sendStop\<close> flag of the sub-command, and
  reports the number of bytes. Every token is a byte value.
\<close>

theorem i2cWrite_one_bracket_or_nothing:
  "trace (i2cWrite sendStop st) =
     trace st @
       (if token_stream st = [] then [Serial_println ''nothing to write'']
        else [Wire_beginTransmission (i2cSlaveAddress st)] @
             map (\<lambda>v. Wire_write (of_int v)) (token_stream st) @
             [Wire_endTransmission sendStop, Serial_print ''Wrote '',
              Serial_print_int (int (length (token_stream st))),
              Serial_println '' bytes''])
   \<and> (first_char cmd = CHR ''W'' \<or> first_char cmd = CHR ''w'' \<longrightarrow>
        i2cTrans (Some cmd) st = Inr (i2cWrite True st))
   \<and> (first_char cmd = CHR ''F'' \<or> first_char cmd = CHR ''f'' \<longrightarrow>
        i2cTrans (Some cmd) st = Inr (i2cWrite False st))
   \<and> (\<forall>v \<in> set (token_stream st). 0 \<le> v \<and> v < 256)"
proof -
  obtain r where "i2cWrite sendStop st =
     st\<lparr>strtok_save := r,
        trace := trace st @
          (if token_stream st = [] then [Serial_println ''nothing to write'']
           else [Wire_beginTransmission (i2cSlaveAddress st)] @
                map (\<lambda>v. Wire_write (of_int v)) (token_stream st) @
                [Wire_endTransmission sendStop, Serial_print ''Wrote '',
                 Serial_print_int (int (length (token_stream st))),
                 Serial_println '' bytes''])\<rparr>"
    using i2cWrite_state by blast
  then have "trace (i2cWrite sendStop st) =
     trace st @
       (if token_stream st = [] then [Serial_println ''nothing to write'']
        else [Wire_beginTransmission (i2cSlaveAddress st)] @
             map (\<lambda>v. Wire_write (of_int v)) (token_stream st) @
             [Wire_endTransmission sendStop, Serial_print ''Wrote '',
              Serial_print_int (int (length (token_stream st))),
              Serial_println '' bytes''])"
    by simp
  moreover have "first_char cmd = CHR ''W'' \<or> first_char cmd = CHR ''w'' \<longrightarrow>
        i2cTrans (Some cmd) st = Inr (i2cWrite True st)"
    by (auto simp: i2cTrans_def Let_def)
  moreover have "first_char cmd = CHR ''F'' \<or> first_char cmd = CHR ''f'' \<longrightarrow>
        i2cTrans (Some cmd) st = Inr (i2cWrite False st)"
    by (auto simp: i2cTrans_def Let_def)
  moreover have "\<forall>v \<in> set (token_stream st). 0 \<le> v \<and> v < 256"
    using token_stream_range by blast
  ultimately show ?thesis by blast
qed

lemma token_stream_example:
  "token_stream (after_setup\<lparr>strtok_save := ''0x10 0x20''\<rparr>) = [16, 32]"
  by (simp add: token_stream.simps after_setup_def nextByte_def strtok_NULL_def strtok_scan_def
      is_delim_def delimiters_def strtoul_def isspace_def hex_prefixed_def digit_of_def
      digits_value_def Let_def)

lemma token_stream_empty_example: "token_stream after_setup = []"
  by (simp add: token_stream.simps after_setup_def nextByte_def strtok_NULL_def strtok_scan_def
      Let_def)

theorem i2cWrite_one_bracket_or_nothing_witness:
  "(first_char ''w'' = CHR ''W'' \<or> first_char ''w'' = CHR ''w'')
   \<and> (first_char ''F'' = CHR ''F'' \<or> first_char ''F'' = CHR ''f'')
   \<and> token_stream (after_setup\<lparr>strtok_save := ''0x10 0x20''\<rparr>) = [16, 32]
   \<and> i2cTrans (Some ''w'') (after_setup\<lparr>strtok_save := ''0x10 0x20''\<rparr>) =
        Inr (i2cWrite True (after_setup\<lparr>strtok_save := ''0x10 0x20''\<rparr>))
   \<and> trace (i2cWrite True (after_setup\<lparr>strtok_save := ''0x10 0x20''\<rparr>)) =
        [Wire_beginTransmission 0x41, Wire_write 0x10, Wire_write 0x20,
         Wire_endTransmission True, Serial_print ''Wrote '', Serial_print_int 2,
         Serial_println '' bytes'']
   \<and> i2cTrans (Some ''F'') after_setup = Inr (i2cWrite False after_setup)
   \<and> trace (i2cWrite False after_setup) = [Serial_println ''nothing to write'']"
  using i2cWrite_one_bracket_or_nothing
          [of True "after_setup\<lparr>strtok_save := ''0x10 0x20''\<rparr>" "''w''"]
        i2cWrite_one_bracket_or_nothing [of False after_setup "''F''"]
  by (simp add: token_stream_example token_stream_empty_example first_char_def)
     (simp add: after_setup_def)

subsection \<open>I2C get\<close>

lemma strtok_NULL_state: "strtok_NULL st = (tok, st1) \<Longrightarrow> \<exists>r. st1 = st\<lparr>strtok_save := r\<rparr>"
  by (auto simp: strtok_NULL_def Let_def split: prod.splits)

text \<open>
  C4. The Get sub-command (G/g) with a count token first runs the write without stop on
  the tokens that follow the count (one transmission holding exactly the token stream,
  ended with \<^verbatim>\<open>endTransmission(false)\<close>; no transmission when the stream is empty), and
  then the read of \<open>cnt\<close> bytes from the slave address, where \<open>cnt\<close> is the count token
  converted by \<^verbatim>\<open>strtoul\<close>.
\<close>

theorem i2cGet_write_then_read:
  assumes tok: "strtok_NULL st = (Some tok, st1)"
    and cmd: "first_char cmd = CHR ''G'' \<or> first_char cmd = CHR ''g''"
  shows "\<exists>st'. i2cTrans (Some cmd) st = Inr st' \<and>
     trace st' =
       trace st @
       (if token_stream st1 = [] then [Serial_println ''nothing to write'']
        else [Wire_beginTransmission (i2cSlaveAddress st)] @
             map (\<lambda>v. Wire_write (of_int v)) (token_stream st1) @
             [Wire_endTransmission False, Serial_print ''Wrote '',
              Serial_print_int (int (length (token_stream st1))),
              Serial_println '' bytes'']) @
       [Serial_print ''Reading '', Serial_print_int (sint (fst (strtoul tok))),
        Serial_print '' bytes from '', Serial_println_int (uint (i2cSlaveAddress st)),
        Wire_requestFrom (i2cSlaveAddress st) (sint (fst (strtoul tok))), Wire_available] @
       (if sint (fst (strtoul tok)) \<le> int (length (next_reply st))
        then concat (map byte_events (take (nat (sint (fst (strtoul tok)))) (next_reply st)))
        else []) @
       [Serial_println_empty]"
proof -
  obtain r1 where st1: "st1 = st\<lparr>strtok_save := r1\<rparr>"
    using strtok_NULL_state [OF tok] by blast
  obtain r where w: "i2cWrite False st1 =
     st1\<lparr>strtok_save := r,
        trace := trace st1 @
          (if token_stream st1 = [] then [Serial_println ''nothing to write'']
           else [Wire_beginTransmission (i2cSlaveAddress st1)] @
                map (\<lambda>v. Wire_write (of_int v)) (token_stream st1) @
                [Wire_endTransmission False, Serial_print ''Wrote '',
                 Serial_print_int (int (length (token_stream st1))),
                 Serial_println '' bytes''])\<rparr>"
    using i2cWrite_state by blast
  have "i2cTrans (Some cmd) st = Inr (i2cRead (sint (fst (strtoul tok))) (i2cWrite False st1))"
    using cmd tok by (auto simp: i2cTrans_def Let_def strtoul_ptr_def i2cGet_def)
  moreover have "trace (i2cRead (sint (fst (strtoul tok))) (i2cWrite False st1)) =
       trace st @
       (if token_stream st1 = [] then [Serial_println ''nothing to write'']
        else [Wire_beginTransmission (i2cSlaveAddress st)] @
             map (\<lambda>v. Wire_write (of_int v)) (token_stream st1) @
             [Wire_endTransmission False, Serial_print ''Wrote '',
              Serial_print_int (int (length (token_stream st1))),
              Serial_println '' bytes'']) @
       [Serial_print ''Reading '', Serial_print_int (sint (fst (strtoul tok))),
        Serial_print '' bytes from '', Serial_println_int (uint (i2cSlaveAddress st)),
        Wire_requestFrom (i2cSlaveAddress st) (sint (fst (strtoul tok))), Wire_available] @
       (if sint (fst (strtoul tok)) \<le> int (length (next_reply st))
        then concat (map byte_events (take (nat (sint (fst (strtoul tok)))) (next_reply st)))
        else []) @
       [Serial_println_empty]"
    by (simp add: i2cRead_state w) (simp add: st1 next_reply_def)
  ultimately show ?thesis by blast
qed

lemma strtoul_3: "strtoul ''3'' = (3, 1)"
  by (simp add: strtoul_def isspace_def hex_prefixed_def digit_of_def digits_value_def Let_def)

lemma strtok_example:
  "strtok_NULL (after_setup\<lparr>strtok_save := ''3 0x10 0x20''\<rparr>) =
     (Some ''3'', after_setup\<lparr>strtok_save := ''0x10 0x20''\<rparr>)"
  by (simp add: strtok_NULL_def strtok_scan_def is_delim_def delimiters_def after_setup_def)

lemma after_setup_fields:
  "i2cSlaveAddress after_setup = 0x41" "trace after_setup = []"
  "next_reply (after_setup\<lparr>strtok_save := s\<rparr>) = [0xA1, 0xB2, 0xC3]"
  "next_reply after_setup = [0xA1, 0xB2, 0xC3]"
  by (simp_all add: after_setup_def next_reply_def)

theorem i2cGet_write_then_read_witness:
  "strtok_NULL (after_setup\<lparr>strtok_save := ''3 0x10 0x20''\<rparr>) =
     (Some ''3'', after_setup\<lparr>strtok_save := ''0x10 0x20''\<rparr>)
   \<and> (first_char ''g'' = CHR ''G'' \<or> first_char ''g'' = CHR ''g'')
   \<and> (\<exists>st'. i2cTrans (Some ''g'') (after_setup\<lparr>strtok_save := ''3 0x10 0x20''\<rparr>) = Inr st' \<and>
        trace st' =
          [Wire_beginTransmission 0x41, Wire_write 0x10, Wire_write 0x20,
           Wire_endTransmission False, Serial_print ''Wrote '', Serial_print_int 2,
           Serial_println '' bytes'',
           Serial_print ''Reading '', Serial_print_int 3, Serial_print '' bytes from '',
           Serial_println_int 65, Wire_requestFrom 0x41 3, Wire_available,
           Wire_read, Serial_print ''0xA1 '', Wire_read, Serial_print ''0xB2 '',
           Wire_read, Serial_print ''0xC3 '', Serial_println_empty])"
proof -
  have c: "first_char ''g'' = CHR ''G'' \<or> first_char ''g'' = CHR ''g''"
    by (simp add: first_char_def)
  have e: "byte_events 0xA1 = [Wire_read, Serial_print ''0xA1 '']"
     "byte_events 0xB2 = [Wire_read, Serial_print ''0xB2 '']"
     "byte_events 0xC3 = [Wire_read, Serial_print ''0xC3 '']"
    by (simp_all add: byte_events_def fmt_02X_def hex_digits.simps hex_digit_def Let_def)
  show ?thesis
    using i2cGet_write_then_read [OF strtok_example c] c
    by (simp add: strtok_example token_stream_example strtoul_3 e after_setup_fields)
qed

subsection \<open>I2C address\<close>

lemma strtoul_nothing: "snd (strtoul s) = 0 \<Longrightarrow> fst (strtoul s) = 0"
  by (auto simp: strtoul_def Let_def split: if_splits)

lemma ucast_small: "(w :: 32 word) < 256 \<Longrightarrow> uint (ucast w :: 8 word) = uint w"
proof -
  assume "w < 256"
  then have "uint w < 256" by (simp add: word_less_def)
  then have "take_bit 8 (uint w) = uint w"
    by (simp add: take_bit_int_eq_self)
  then show ?thesis by (simp add: unsigned_ucast_eq)
qed

text \<open>
  C2, as the code has it. The Address sub-command (A/a) with a token after it sets
  \<^verbatim>\<open>i2cSlaveAddress\<close> to the low eight bits of what \<^verbatim>\<open>strtoul\<close> converts of the token,
  and announces the new address: that is the token's value when it is a byte, and 0 when
  nothing of the token can be converted.
\<close>

theorem i2cAddr_sets_converted_token:
  assumes tok: "strtok_NULL st = (Some tok, st1)"
    and cmd: "first_char cmd = CHR ''A'' \<or> first_char cmd = CHR ''a''"
  shows "i2cTrans (Some cmd) st =
       Inr (st1\<lparr>i2cSlaveAddress := ucast (fst (strtoul tok)),
               trace := trace st @
                 [Serial_print ''I2C Slave Address set to:  '',
                  Serial_println_int (uint (ucast (fst (strtoul tok)) :: 8 word))]\<rparr>)
     \<and> (fst (strtoul tok) < 256 \<longrightarrow>
          uint (ucast (fst (strtoul tok)) :: 8 word) = uint (fst (strtoul tok)))
     \<and> (snd (strtoul tok) = 0 \<longrightarrow> (ucast (fst (strtoul tok)) :: 8 word) = 0)"
proof -
  obtain r1 where st1: "st1 = st\<lparr>strtok_save := r1\<rparr>"
    using strtok_NULL_state [OF tok] by blast
  have "i2cTrans (Some cmd) st = Inr (i2cAddr (ucast (fst (strtoul tok))) st1)"
    using cmd tok by (auto simp: i2cTrans_def Let_def strtoul_ptr_def)
  then have "i2cTrans (Some cmd) st =
       Inr (st1\<lparr>i2cSlaveAddress := ucast (fst (strtoul tok)),
               trace := trace st @
                 [Serial_print ''I2C Slave Address set to:  '',
                  Serial_println_int (uint (ucast (fst (strtoul tok)) :: 8 word))]\<rparr>)"
    by (simp add: i2cAddr_def Let_def emit_def st1)
  then show ?thesis
    by (simp add: ucast_small strtoul_nothing)
qed

lemma strtoul_0x42: "strtoul ''0x42'' = (0x42, 4)"
  by (simp add: strtoul_def isspace_def hex_prefixed_def digit_of_def digits_value_def Let_def)

lemma strtok_0x42:
  "strtok_NULL (after_setup\<lparr>strtok_save := ''0x42''\<rparr>) =
     (Some ''0x42'', after_setup\<lparr>strtok_save := []\<rparr>)"
  by (simp add: strtok_NULL_def strtok_scan_def is_delim_def delimiters_def after_setup_def)

theorem i2cAddr_sets_converted_token_witness:
  "strtok_NULL (after_setup\<lparr>strtok_save := ''0x42''\<rparr>) =
     (Some ''0x42'', after_setup\<lparr>strtok_save := []\<rparr>)
   \<and> (first_char ''a'' = CHR ''A'' \<or> first_char ''a'' = CHR ''a'')
   \<and> fst (strtoul ''0x42'') < 256
   \<and> i2cTrans (Some ''a'') (after_setup\<lparr>strtok_save := ''0x42''\<rparr>) =
       Inr (after_setup\<lparr>strtok_save := [], i2cSlaveAddress := 0x42,
              trace := [Serial_print ''I2C Slave Address set to:  '', Serial_println_int 66]\<rparr>)"
proof -
  have c: "first_char ''a'' = CHR ''A'' \<or> first_char ''a'' = CHR ''a''"
    by (simp add: first_char_def)
  show ?thesis
    using i2cAddr_sets_converted_token [OF strtok_0x42 c] c
    by (simp add: strtok_0x42 strtoul_0x42 after_setup_fields)
qed

text \<open>
  C2 as stated fails: typing \<^verbatim>\<open>i a zz\<close> does not leave the address \<open>0x41\<close> in place
  silently, it sets the address to 0 and says so.
\<close>

theorem i2cAddr_unparsable_counterexample:
  "i2cSlaveAddress after_setup = 0x41
   \<and> map_sum id i2cSlaveAddress (drain (''i a zz'' @ [CHR 0x0D]) after_setup) = Inr 0
   \<and> map_sum id trace (drain (''i a zz'' @ [CHR 0x0D]) after_setup) =
       Inr [Serial_print ''I2C Slave Address set to:  '', Serial_println_int 0]"
  by code_simp

subsection \<open>Dispatch on a missing token\<close>

lemma Inl_by_parts: "isl x \<Longrightarrow> projl x = e \<Longrightarrow> x = Inl e"
  by (cases x) auto

text \<open>
  C3. Dispatch does not survive every line: a line of delimiters only makes
  \<^verbatim>\<open>runCommand\<close> read \<^verbatim>\<open>commandName[0]\<close> through the null pointer that strtok returned,
  and the I2C, I2C address/read/get and program-pin commands without an argument token
  read \<^verbatim>\<open>i2cCmd[0]\<close> or \<^verbatim>\<open>prog[0]\<close> through it or hand it to \<^verbatim>\<open>strtoul\<close>.
\<close>

theorem dispatch_null_dereference:
  "drain ('' '' @ [CHR 0x0D]) after_setup = Inl NullDeref
   \<and> drain (''i'' @ [CHR 0x0D]) after_setup = Inl NullDeref
   \<and> drain (''i a'' @ [CHR 0x0D]) after_setup = Inl NullDeref
   \<and> drain (''i r'' @ [CHR 0x0D]) after_setup = Inl NullDeref
   \<and> drain (''i g'' @ [CHR 0x0D]) after_setup = Inl NullDeref
   \<and> drain (''p'' @ [CHR 0x0D]) after_setup = Inl NullDeref"
  by (intro conjI Inl_by_parts; code_simp)

subsection \<open>The dirty flag\<close>

text \<open>No command and no typed character touches \<^verbatim>\<open>changed\<close>.\<close>

lemma changed_emit [simp]: "changed (emit e st) = changed st"
  by (simp add: emit_def)

lemma changed_println_all [simp]: "changed (println_all ls st) = changed st"
  by (induction ls arbitrary: st) simp_all

lemma changed_print_each_02X [simp]: "changed (print_each_02X bs st) = changed st"
  by (induction bs arbitrary: st) simp_all

lemma changed_Wire_write_all [simp]: "changed (Wire_write_all bs st) = changed st"
  by (induction bs arbitrary: st) simp_all

lemma changed_Wire_read_call [simp]: "changed (snd (Wire_read_call st)) = changed st"
  by (simp add: Wire_read_call_def emit_def split: list.splits)

lemma changed_read_into [simp]: "changed (snd (read_into n acc st)) = changed st"
  by (induction n acc st rule: read_into.induct) (simp_all add: split_beta)

lemma changed_printDir_loop [simp]: "changed (printDir_loop es st) = changed st"
  by (induction es st rule: printDir_loop.induct) (simp_all add: Let_def)

lemma changed_printDir [simp]: "changed (printDir st) = changed st"
  by (simp add: printDir_def Let_def split: option.splits)

lemma changed_nextByte [simp]: "changed (snd (nextByte st)) = changed st"
  using nextByte_snd [of st] by auto

lemma changed_strtok_NULL [simp]: "changed (snd (strtok_NULL st)) = changed st"
  by (simp add: strtok_NULL_def split_beta)

lemma changed_strtok_buf [simp]: "changed (snd (strtok_buf st)) = changed st"
  by (simp add: strtok_buf_def split_beta)

lemma changed_i2cRead [simp]: "changed (i2cRead cnt st) = changed st"
  by (simp add: i2cRead_state)

lemma changed_i2cWrite [simp]: "changed (i2cWrite b st) = changed st"
  using i2cWrite_state [of b st] by auto

lemma changed_printBufHEX [simp]: "changed (printBufHEX msg buf cnt st) = changed st"
  by (simp add: printBufHEX_def)

lemma changed_machXO_read_call [simp]: "changed (snd (machXO_read_call q buf st)) = changed st"
  by (simp add: machXO_read_call_def)

lemma changed_xoDetails [simp]: "changed (xoDetails st) = changed st"
  by (simp add: xoDetails_def Let_def split_beta)

lemma changed_xoStatus [simp]: "changed (xoStatus st) = changed st"
  by (simp add: xoStatus_def Let_def split_beta)

lemma changed_simple [simp]:
  "changed (xoConfig st) = changed st"
  "changed (xoRefresh st) = changed st"
  "changed (xoErase st) = changed st"
  "changed (printHelp st) = changed st"
  "changed (i2cHelp st) = changed st"
  "changed (i2cAddr a st) = changed st"
  "changed (i2cGet cnt st) = changed st"
  by (simp_all add: xoConfig_def xoRefresh_def xoErase_def printHelp_def i2cHelp_def
        i2cAddr_def i2cGet_def Let_def)

lemma changed_rd1124MemTst [simp]: "changed (rd1124MemTst st) = changed st"
  by (simp add: rd1124MemTst_def Let_def split_beta Wire_requestFrom_call_def
        Wire_available_call_def)

lemma changed_xoProgPin: "xoProgPin p st = Inr st' \<Longrightarrow> changed st' = changed st"
  by (auto simp: xoProgPin_def Let_def split: option.splits if_splits)

lemma changed_xoLoadHEX: "xoLoadHEX p st = Inr st' \<Longrightarrow> changed st' = changed st"
  by (auto simp: xoLoadHEX_def Let_def split: option.splits if_splits)

lemma changed_i2cTrans: "i2cTrans p st = Inr st' \<Longrightarrow> changed st' = changed st"
  by (auto simp: i2cTrans_def Let_def split_beta strtoul_ptr_def
           split: option.splits if_splits sum.splits)

lemma changed_runCommand: "runCommand st = Inr st' \<Longrightarrow> changed st' = changed st"
  by (auto simp: runCommand_def Let_def split_beta
           split: option.splits if_splits
           dest!: changed_xoProgPin changed_xoLoadHEX changed_i2cTrans)

lemma changed_buf_store: "buf_store i c st = Inr st' \<Longrightarrow> changed st' = changed st"
  by (auto simp: buf_store_def split: if_splits)

lemma changed_loop_char: "loop_char c st = Inr st' \<Longrightarrow> changed st' = changed st"
  by (auto simp: loop_char_def and_then_def
           split: if_splits sum.splits
           dest!: changed_buf_store changed_runCommand)

lemma changed_drain: "drain cs st = Inr st' \<Longrightarrow> changed st' = changed st"
proof (induction cs arbitrary: st)
  case Nil
  then show ?case by simp
next
  case (Cons c cs)
  then show ?case
    by (auto simp: and_then_def split: sum.splits dest: changed_loop_char)
qed


lemma changed_after_flushes: "0 < k \<Longrightarrow> changed ((msc_flush_cb ^^ k) st)"
  by (cases k) (simp_all add: msc_flush_cb_def set_changed_def emit_def Let_def)

lemma Root_open_printDir_loop:
  "count_list (trace (printDir_loop es st)) (Root_open p) = count_list (trace st) (Root_open p)"
  by (induction es st rule: printDir_loop.induct) (simp_all add: Let_def emit_def)

lemma Root_open_printDir:
  "count_list (trace (printDir st)) (Root_open ''/'') =
   count_list (trace st) (Root_open ''/'') + 1"
  by (simp add: printDir_def Let_def emit_def Root_open_printDir_loop split: option.splits)

text \<open>
  C9. However many times (at least once) the flush callback has run since the flag was
  last polled, the next iteration of \<^verbatim>\<open>loop\<close>, once it has handled the characters that
  were waiting, clears \<^verbatim>\<open>changed\<close> and lists the directory once: it opens the root
  directory exactly one more time. The iteration after that, with nothing typed and no
  flush in between, only waits.
\<close>

theorem flushes_collapse_to_one_refresh:
  assumes k: "0 < k"
    and drained: "drain pending ((msc_flush_cb ^^ k) st) = Inr st1"
  shows "\<exists>st2. loop pending ((msc_flush_cb ^^ k) st) = Inr st2
     \<and> st2 = emit (Delay 100) (printDir (set_changed False st1))
     \<and> \<not> changed st2
     \<and> count_list (trace st2) (Root_open ''/'') = count_list (trace st1) (Root_open ''/'') + 1
     \<and> loop [] st2 = Inr (emit (Delay 100) st2)"
proof -
  let ?st2 = "emit (Delay 100) (printDir (set_changed False st1))"
  have "changed st1"
    using changed_drain [OF drained] changed_after_flushes [OF k] by simp
  then have run: "loop pending ((msc_flush_cb ^^ k) st) = Inr ?st2"
    by (simp add: loop_def drained and_then_def)
  have off: "\<not> changed ?st2"
    by (simp add: set_changed_def emit_def)
  have once: "count_list (trace ?st2) (Root_open ''/'') =
      count_list (trace st1) (Root_open ''/'') + 1"
    by (simp add: emit_def Root_open_printDir) (simp add: set_changed_def emit_def)
  have idle: "loop [] ?st2 = Inr (emit (Delay 100) ?st2)"
    using off by (simp add: loop_def and_then_def)
  from run off once idle show ?thesis by blast
qed

theorem flushes_collapse_to_one_refresh_witness:
  "(0 :: nat) < 3
   \<and> drain [] ((msc_flush_cb ^^ 3) (after_setup\<lparr>changed := False\<rparr>)) =
       Inr ((msc_flush_cb ^^ 3) (after_setup\<lparr>changed := False\<rparr>))
   \<and> (\<exists>st2. loop [] ((msc_flush_cb ^^ 3) (after_setup\<lparr>changed := False\<rparr>)) = Inr st2
        \<and> \<not> changed st2
        \<and> count_list (trace st2) (Root_open ''/'') = 1
        \<and> loop [] st2 = Inr (emit (Delay 100) st2))"
proof -
  have k: "(0 :: nat) < 3" by simp
  have d: "drain [] ((msc_flush_cb ^^ 3) (after_setup\<lparr>changed := False\<rparr>)) =
       Inr ((msc_flush_cb ^^ 3) (after_setup\<lparr>changed := False\<rparr>))"
    by simp
  have "count_list (trace ((msc_flush_cb ^^ 3) (after_setup\<lparr>changed := False\<rparr>)))
          (Root_open ''/'') = 0"
    by (simp add: numeral_3_eq_3 msc_flush_cb_def set_changed_def emit_def Let_def after_setup_def)
  then show ?thesis
    using flushes_collapse_to_one_refresh [OF k d] by auto
qed

subsection \<open>The line buffer\<close>

text \<open>No command changes the size of \<^verbatim>\<open>commandBuf\<close>.\<close>

lemma buflen_emit [simp]: "length (commandBuf (emit e st)) = length (commandBuf st)"
  by (simp add: emit_def)

lemma buflen_println_all [simp]: "length (commandBuf (println_all ls st)) = length (commandBuf st)"
  by (induction ls arbitrary: st) simp_all

lemma buflen_print_each_02X [simp]: "length (commandBuf (print_each_02X bs st)) = length (commandBuf st)"
  by (induction bs arbitrary: st) simp_all

lemma buflen_Wire_write_all [simp]: "length (commandBuf (Wire_write_all bs st)) = length (commandBuf st)"
  by (induction bs arbitrary: st) simp_all

lemma buflen_Wire_read_call [simp]: "length (commandBuf (snd (Wire_read_call st))) = length (commandBuf st)"
  by (simp add: Wire_read_call_def emit_def split: list.splits)

lemma buflen_read_into [simp]: "length (commandBuf (snd (read_into n acc st))) = length (commandBuf st)"
  by (induction n acc st rule: read_into.induct) (simp_all add: split_beta)

lemma buflen_printDir_loop [simp]: "length (commandBuf (printDir_loop es st)) = length (commandBuf st)"
  by (induction es st rule: printDir_loop.induct) (simp_all add: Let_def)

lemma buflen_printDir [simp]: "length (commandBuf (printDir st)) = length (commandBuf st)"
  by (simp add: printDir_def Let_def split: option.splits)

lemma buflen_nextByte [simp]: "length (commandBuf (snd (nextByte st))) = length (commandBuf st)"
  using nextByte_snd [of st] by auto

lemma buflen_strtok_NULL [simp]: "length (commandBuf (snd (strtok_NULL st))) = length (commandBuf st)"
  by (simp add: strtok_NULL_def split_beta)

lemma buflen_strtok_buf [simp]: "length (commandBuf (snd (strtok_buf st))) = length (commandBuf st)"
  by (simp add: strtok_buf_def split_beta)

lemma buflen_i2cRead [simp]: "length (commandBuf (i2cRead cnt st)) = length (commandBuf st)"
  by (simp add: i2cRead_state)

lemma buflen_i2cWrite [simp]: "length (commandBuf (i2cWrite b st)) = length (commandBuf st)"
  using i2cWrite_state [of b st] by auto

lemma buflen_printBufHEX [simp]: "length (commandBuf (printBufHEX msg buf cnt st)) = length (commandBuf st)"
  by (simp add: printBufHEX_def)

lemma buflen_machXO_read_call [simp]: "length (commandBuf (snd (machXO_read_call q buf st))) = length (commandBuf st)"
  by (simp add: machXO_read_call_def)

lemma buflen_xoDetails [simp]: "length (commandBuf (xoDetails st)) = length (commandBuf st)"
  by (simp add: xoDetails_def Let_def split_beta)

lemma buflen_xoStatus [simp]: "length (commandBuf (xoStatus st)) = length (commandBuf st)"
  by (simp add: xoStatus_def Let_def split_beta)

lemma buflen_simple [simp]:
  "length (commandBuf (xoConfig st)) = length (commandBuf st)"
  "length (commandBuf (xoRefresh st)) = length (commandBuf st)"
  "length (commandBuf (xoErase st)) = length (commandBuf st)"
  "length (commandBuf (printHelp st)) = length (commandBuf st)"
  "length (commandBuf (i2cHelp st)) = length (commandBuf st)"
  "length (commandBuf (i2cAddr a st)) = length (commandBuf st)"
  "length (commandBuf (i2cGet cnt st)) = length (commandBuf st)"
  by (simp_all add: xoConfig_def xoRefresh_def xoErase_def printHelp_def i2cHelp_def
        i2cAddr_def i2cGet_def Let_def)

lemma buflen_rd1124MemTst [simp]: "length (commandBuf (rd1124MemTst st)) = length (commandBuf st)"
  by (simp add: rd1124MemTst_def Let_def split_beta Wire_requestFrom_call_def
        Wire_available_call_def)

lemma buflen_xoProgPin: "xoProgPin p st = Inr st' \<Longrightarrow> length (commandBuf st') = length (commandBuf st)"
  by (auto simp: xoProgPin_def Let_def split: option.splits if_splits)

lemma buflen_xoLoadHEX: "xoLoadHEX p st = Inr st' \<Longrightarrow> length (commandBuf st') = length (commandBuf st)"
  by (auto simp: xoLoadHEX_def Let_def split: option.splits if_splits)

lemma buflen_i2cTrans: "i2cTrans p st = Inr st' \<Longrightarrow> length (commandBuf st') = length (commandBuf st)"
  by (auto simp: i2cTrans_def Let_def split_beta strtoul_ptr_def
           split: option.splits if_splits sum.splits)

lemma buflen_runCommand: "runCommand st = Inr st' \<Longrightarrow> length (commandBuf st') = length (commandBuf st)"
  by (auto simp: runCommand_def Let_def split_beta
           split: option.splits if_splits
           dest!: buflen_xoProgPin buflen_xoLoadHEX buflen_i2cTrans)

lemma drain_append: "drain (xs @ ys) st = and_then (drain xs st) (drain ys)"
  by (induction xs arbitrary: st) (auto simp: and_then_def split: sum.splits)

lemma and_then_Inr: "and_then (Inr x) f = f x"
  by (simp add: and_then_def)

lemma and_then_Inl: "and_then (Inl e) f = Inl e"
  by (simp add: and_then_def)

lemma and_then_assoc: "and_then (and_then m f) g = and_then m (\<lambda>x. and_then (f x) g)"
  by (cases m) (simp_all add: and_then_def)

lemma loop_char_backspace_empty:
  "charCnt st = 0 \<Longrightarrow> loop_char (CHR 0x08) st = Inr st"
  by (simp add: loop_char_def)

lemma loop_char_backspace:
  "0 < charCnt st \<Longrightarrow> charCnt st \<le> int (length (commandBuf st)) \<Longrightarrow>
   loop_char (CHR 0x08) st =
     Inr (st\<lparr>commandBuf := (commandBuf st)[nat (charCnt st - 1) := CHR 0x00],
            charCnt := charCnt st - 1,
            trace := trace st @ bs_echo\<rparr>)"
  by (simp add: loop_char_def buf_store_def and_then_def emit_def bs_echo_def)

lemma loop_char_other:
  "\<not> is_terminator c \<Longrightarrow> c \<noteq> CHR 0x08 \<Longrightarrow> 0 \<le> charCnt st \<Longrightarrow> charCnt st < 127 \<Longrightarrow>
   length (commandBuf st) = 128 \<Longrightarrow>
   loop_char c st =
     Inr (st\<lparr>commandBuf := (commandBuf st)[nat (charCnt st) := c,
                                             nat (charCnt st + 1) := CHR 0x00],
            charCnt := charCnt st + 1\<rparr>)"
  by (simp add: loop_char_def buf_store_def and_then_def is_terminator_def
        COMMAND_BUFFER_LENGTH_def)

lemma loop_char_terminator:
  "is_terminator t \<Longrightarrow> 0 \<le> charCnt st \<Longrightarrow> charCnt st < int (length (commandBuf st)) \<Longrightarrow>
   loop_char t st =
     (if 0 < charCnt st
      then and_then (runCommand (st\<lparr>commandBuf := (commandBuf st)[nat (charCnt st) := CHR 0x00]\<rparr>))
             (\<lambda>s. Inr (s\<lparr>charCnt := 0\<rparr>))
      else Inr (st\<lparr>commandBuf := (commandBuf st)[nat (charCnt st) := CHR 0x00]\<rparr>))"
  by (auto simp: loop_char_def buf_store_def and_then_def is_terminator_def)

lemma terminator_not_backspace: "is_terminator c \<Longrightarrow> c \<noteq> CHR 0x08"
  by (auto simp: is_terminator_def)

text \<open>
  Typing characters that complete no line only edits the line buffer and echoes the
  backspaces that removed something.
\<close>

lemma typing:
  assumes "completed_lines acc cs = []"
    and "charCnt st = int (length acc)"
    and "length (commandBuf st) = 128"
    and "take (length acc) (commandBuf st) = acc"
    and "length acc + length cs \<le> 127"
  shows "\<exists>buf k. drain cs st =
           Inr (st\<lparr>commandBuf := buf,
                  charCnt := int (length (pending_line acc cs)),
                  trace := trace st @ concat (replicate k bs_echo)\<rparr>)
         \<and> length buf = 128
         \<and> take (length (pending_line acc cs)) buf = pending_line acc cs"
  using assms
proof (induction cs arbitrary: st acc)
  case Nil
  have "st = st\<lparr>commandBuf := commandBuf st, charCnt := int (length acc),
                trace := trace st @ concat (replicate 0 bs_echo)\<rparr>"
    using Nil.prems(2) by simp
  then have "drain [] st =
           Inr (st\<lparr>commandBuf := commandBuf st,
                  charCnt := int (length (pending_line acc [])),
                  trace := trace st @ concat (replicate 0 bs_echo)\<rparr>)"
    by simp
  with Nil.prems(3,4) show ?case
    by (intro exI [of _ "commandBuf st"] exI [of _ 0]) simp
next
  case (Cons c cs)
  let ?n = "length acc"
  have n: "?n < 127" using Cons.prems(5) by simp
  show ?case
  proof (cases "is_terminator c")
    case tm: True
    from Cons.prems(1) tm have empty: "acc = []" and rest: "completed_lines [] cs = []"
      by (auto split: if_splits)
    let ?st' = "st\<lparr>commandBuf := (commandBuf st)[nat (charCnt st) := CHR 0x00]\<rparr>"
    have c1: "0 \<le> charCnt st" using Cons.prems(2) by simp
    have c2: "charCnt st < int (length (commandBuf st))" using Cons.prems(2,3) n by simp
    have step: "loop_char c st = Inr ?st'"
      using loop_char_terminator [OF tm c1 c2] Cons.prems(2) empty by simp
    have "\<exists>buf k. drain cs ?st' =
           Inr (?st'\<lparr>commandBuf := buf,
                  charCnt := int (length (pending_line [] cs)),
                  trace := trace ?st' @ concat (replicate k bs_echo)\<rparr>)
         \<and> length buf = 128
         \<and> take (length (pending_line [] cs)) buf = pending_line [] cs"
    proof (intro Cons.IH [OF rest])
      show "charCnt ?st' = int (length ([] :: string))" using Cons.prems(2) empty by simp
      show "length (commandBuf ?st') = 128" using Cons.prems(3) by simp
      show "take (length ([] :: string)) (commandBuf ?st') = []" by simp
      show "length ([] :: string) + length cs \<le> 127" using Cons.prems(5) by simp
    qed
    then obtain buf k where
      d: "drain cs ?st' =
           Inr (?st'\<lparr>commandBuf := buf,
                  charCnt := int (length (pending_line [] cs)),
                  trace := trace ?st' @ concat (replicate k bs_echo)\<rparr>)"
      and l: "length buf = 128"
      and tk: "take (length (pending_line [] cs)) buf = pending_line [] cs"
      by blast
    have "drain (c # cs) st =
           Inr (st\<lparr>commandBuf := buf,
                  charCnt := int (length (pending_line acc (c # cs))),
                  trace := trace st @ concat (replicate k bs_echo)\<rparr>)"
      using tm by (simp add: step and_then_Inr d)
    with l tk tm show ?thesis
      by (intro exI [of _ buf] exI [of _ k]) simp
  next
    case nt: False
    show ?thesis
    proof (cases "c = CHR 0x08")
      case bs: True
      from Cons.prems(1) nt bs have rest: "completed_lines (butlast acc) cs = []"
        by simp
      show ?thesis
      proof (cases "acc = []")
        case True
        then have step: "loop_char (CHR 0x08) st = Inr st"
          using Cons.prems(2) by (simp add: loop_char_backspace_empty)
        have "\<exists>buf k. drain cs st =
             Inr (st\<lparr>commandBuf := buf,
                    charCnt := int (length (pending_line (butlast acc) cs)),
                    trace := trace st @ concat (replicate k bs_echo)\<rparr>)
           \<and> length buf = 128
           \<and> take (length (pending_line (butlast acc) cs)) buf = pending_line (butlast acc) cs"
          using Cons.prems True by (intro Cons.IH [OF rest]) simp_all
        then show ?thesis
          using nt bs by (simp add: step and_then_Inr)
      next
        case False
        let ?st' = "st\<lparr>commandBuf := (commandBuf st)[nat (charCnt st - 1) := CHR 0x00],
              charCnt := charCnt st - 1,
              trace := trace st @ bs_echo\<rparr>"
        have pos: "0 < ?n" using False by simp
        have c1: "0 < charCnt st" using Cons.prems(2) False by simp
        have c2: "charCnt st \<le> int (length (commandBuf st))" using Cons.prems(2,3) n by simp
        have step: "loop_char (CHR 0x08) st = Inr ?st'"
          by (rule loop_char_backspace [OF c1 c2])
        have idx: "nat (charCnt st - 1) = ?n - 1"
          using Cons.prems(2) pos by simp
        have tk: "take (length (butlast acc)) (commandBuf ?st') = butlast acc"
        proof -
          have "take (?n - 1) ((commandBuf st)[?n - 1 := CHR 0x00]) = take (?n - 1) (commandBuf st)"
            by simp
          also have "\<dots> = take (?n - 1) (take ?n (commandBuf st))"
            by (simp add: min_def)
          also have "\<dots> = butlast acc"
            using Cons.prems(4) by (simp add: butlast_conv_take)
          finally show ?thesis by (simp add: idx)
        qed
        have "\<exists>buf k. drain cs ?st' =
             Inr (?st'\<lparr>commandBuf := buf,
                    charCnt := int (length (pending_line (butlast acc) cs)),
                    trace := trace ?st' @ concat (replicate k bs_echo)\<rparr>)
           \<and> length buf = 128
           \<and> take (length (pending_line (butlast acc) cs)) buf
               = pending_line (butlast acc) cs"
        proof (intro Cons.IH [OF rest])
          show "charCnt ?st' = int (length (butlast acc))"
            using Cons.prems(2) False by (cases acc) simp_all
          show "length (commandBuf ?st') = 128" using Cons.prems(3) by simp
          show "take (length (butlast acc)) (commandBuf ?st') = butlast acc" by (rule tk)
          show "length (butlast acc) + length cs \<le> 127" using Cons.prems(5) by simp
        qed
        then obtain buf k where
          d: "drain cs ?st' =
             Inr (?st'\<lparr>commandBuf := buf,
                    charCnt := int (length (pending_line (butlast acc) cs)),
                    trace := trace ?st' @ concat (replicate k bs_echo)\<rparr>)"
          and l: "length buf = 128"
          and tk': "take (length (pending_line (butlast acc) cs)) buf
               = pending_line (butlast acc) cs"
          by blast
        have "drain (c # cs) st =
             Inr (st\<lparr>commandBuf := buf,
                    charCnt := int (length (pending_line acc (c # cs))),
                    trace := trace st @ concat (replicate (Suc k) bs_echo)\<rparr>)"
          using nt bs by (simp add: step and_then_Inr d)
        with l tk' nt bs show ?thesis
          by (intro exI [of _ buf] exI [of _ "Suc k"]) simp
      qed
    next
      case other: False
      from Cons.prems(1) nt other have rest: "completed_lines (acc @ [c]) cs = []"
        by simp
      let ?st' = "st\<lparr>commandBuf := (commandBuf st)[nat (charCnt st) := c,
                                               nat (charCnt st + 1) := CHR 0x00],
              charCnt := charCnt st + 1\<rparr>"
      have c1: "0 \<le> charCnt st" using Cons.prems(2) by simp
      have c2: "charCnt st < 127" using Cons.prems(2) n by simp
      have step: "loop_char c st = Inr ?st'"
        by (rule loop_char_other [OF nt other c1 c2 Cons.prems(3)])
      have idx: "nat (charCnt st) = ?n" "nat (charCnt st + 1) = Suc ?n"
        using Cons.prems(2) by simp_all
      have tk: "take (length (acc @ [c])) (commandBuf ?st') = acc @ [c]"
      proof -
        have "take (Suc ?n) ((commandBuf st)[?n := c, Suc ?n := CHR 0x00])
              = take (Suc ?n) ((commandBuf st)[?n := c])"
          by simp
        also have "\<dots> = take ?n ((commandBuf st)[?n := c]) @ [(commandBuf st)[?n := c] ! ?n]"
          using n Cons.prems(3) by (simp add: take_Suc_conv_app_nth)
        also have "\<dots> = acc @ [c]"
          using n Cons.prems(3,4) by simp
        finally show ?thesis by (simp add: idx)
      qed
      have "\<exists>buf k. drain cs ?st' =
             Inr (?st'\<lparr>commandBuf := buf,
                    charCnt := int (length (pending_line (acc @ [c]) cs)),
                    trace := trace ?st' @ concat (replicate k bs_echo)\<rparr>)
           \<and> length buf = 128
           \<and> take (length (pending_line (acc @ [c]) cs)) buf
               = pending_line (acc @ [c]) cs"
      proof (intro Cons.IH [OF rest])
        show "charCnt ?st' = int (length (acc @ [c]))"
          using Cons.prems(2) by simp
        show "length (commandBuf ?st') = 128" using Cons.prems(3) by simp
        show "take (length (acc @ [c])) (commandBuf ?st') = acc @ [c]" by (rule tk)
        show "length (acc @ [c]) + length cs \<le> 127" using Cons.prems(5) by simp
      qed
      then show ?thesis
        using nt other by (simp add: step and_then_Inr)
    qed
  qed
qed

lemma no_terminator_no_line:
  "\<forall>c \<in> set cs. \<not> is_terminator c \<Longrightarrow>
   completed_lines acc cs = [] \<and> pending_line acc cs = apply_backspaces acc cs"
  by (induction cs arbitrary: acc) simp_all

lemma length_apply_backspaces:
  "length (apply_backspaces acc cs) \<le> length acc + length cs"
proof (induction cs arbitrary: acc)
  case Nil
  then show ?case by simp
next
  case (Cons c cs)
  show ?case
  proof (cases "c = CHR 0x08")
    case True
    have "length (apply_backspaces (butlast acc) cs) \<le> length (butlast acc) + length cs"
      by (rule Cons.IH)
    with True show ?thesis by simp
  next
    case False
    have "length (apply_backspaces (acc @ [c]) cs) \<le> length (acc @ [c]) + length cs"
      by (rule Cons.IH)
    with False show ?thesis by simp
  qed
qed

lemma takeWhile_stops: "z \<notin> set xs \<Longrightarrow> takeWhile (\<lambda>c. c \<noteq> z) (xs @ z # ys) = xs"
  by (induction xs) auto


text \<open>
  C7, as the code has it. Take an input of at most 127 characters that contains a
  terminator (CR or LF), typed into an empty line buffer; let the content be what stands
  before the first terminator, and the line this content with its backspaces applied. If
  the line is not empty, \<^verbatim>\<open>runCommand\<close> is called on a buffer that holds the line followed
  by a NUL (so it reads the line itself unless the line contains a NUL byte); if it is
  empty, the terminator dispatches nothing. Either way the loop goes on with the rest of
  the input from an empty buffer of the same size. When the rest completes no line (every
  later terminator follows an empty line, as the LF of CR LF does, or there is none), the
  rest only edits the line buffer: then exactly one line is dispatched if the line is not
  empty, and none if it is.
\<close>

theorem line_buffer_dispatches_nonempty_line:
  assumes start: "charCnt st = 0" "length (commandBuf st) = 128"
    and content: "\<forall>c \<in> set content. \<not> is_terminator c"
    and t: "is_terminator t"
    and len: "length (content @ t # rest) \<le> 127"
  shows "\<exists>buf k.
      length buf = 128
    \<and> take (length (apply_backspaces [] content)) buf = apply_backspaces [] content
    \<and> buf ! length (apply_backspaces [] content) = CHR 0x00
    \<and> (CHR 0x00 \<notin> set (apply_backspaces [] content) \<longrightarrow>
         c_str buf = apply_backspaces [] content)
    \<and> drain (content @ t # rest) st =
        (if apply_backspaces [] content = []
         then drain rest
                (st\<lparr>commandBuf := buf,
                    charCnt := int (length (apply_backspaces [] content)),
                    trace := trace st @ concat (replicate k bs_echo)\<rparr>)
         else and_then
                (runCommand
                   (st\<lparr>commandBuf := buf,
                       charCnt := int (length (apply_backspaces [] content)),
                       trace := trace st @ concat (replicate k bs_echo)\<rparr>))
                (\<lambda>s. drain rest (s\<lparr>charCnt := 0\<rparr>)))
    \<and> (\<forall>s. runCommand
               (st\<lparr>commandBuf := buf,
                   charCnt := int (length (apply_backspaces [] content)),
                   trace := trace st @ concat (replicate k bs_echo)\<rparr>) = Inr s \<longrightarrow>
             length (commandBuf s) = 128)
    \<and> (completed_lines [] rest = [] \<longrightarrow>
         (apply_backspaces [] content = [] \<longrightarrow>
            (\<exists>buf' k'. length buf' = 128
               \<and> take (length (pending_line [] rest)) buf' = pending_line [] rest
               \<and> drain (content @ t # rest) st =
                   Inr (st\<lparr>commandBuf := buf',
                          charCnt := int (length (pending_line [] rest)),
                          trace := trace st @ concat (replicate k' bs_echo)\<rparr>)))
       \<and> (apply_backspaces [] content \<noteq> [] \<longrightarrow>
            (\<forall>e. runCommand
                    (st\<lparr>commandBuf := buf,
                        charCnt := int (length (apply_backspaces [] content)),
                        trace := trace st @ concat (replicate k bs_echo)\<rparr>) = Inl e \<longrightarrow>
                  drain (content @ t # rest) st = Inl e)
          \<and> (\<forall>s. runCommand
                    (st\<lparr>commandBuf := buf,
                        charCnt := int (length (apply_backspaces [] content)),
                        trace := trace st @ concat (replicate k bs_echo)\<rparr>) = Inr s \<longrightarrow>
                  (\<exists>buf' k'. length buf' = 128
                     \<and> take (length (pending_line [] rest)) buf' = pending_line [] rest
                     \<and> drain (content @ t # rest) st =
                         Inr (s\<lparr>commandBuf := buf',
                                charCnt := int (length (pending_line [] rest)),
                                trace := trace s @ concat (replicate k' bs_echo)\<rparr>)))))"
proof -
  let ?L = "apply_backspaces [] content"
  let ?n = "length ?L"
  let ?P = "pending_line [] rest"
  have "?n \<le> length content"
    using length_apply_backspaces [of "[]" content] by simp
  with len have n: "?n < 127" by simp
  have cl: "completed_lines [] content = []" and pl: "pending_line [] content = ?L"
    using no_terminator_no_line [OF content, of "[]"] by simp_all
  have "\<exists>buf k. drain content st =
           Inr (st\<lparr>commandBuf := buf,
                  charCnt := int (length (pending_line [] content)),
                  trace := trace st @ concat (replicate k bs_echo)\<rparr>)
         \<and> length buf = 128
         \<and> take (length (pending_line [] content)) buf = pending_line [] content"
    using start len by (intro typing [OF cl]) simp_all
  then obtain buf0 k where
    typed: "drain content st =
       Inr (st\<lparr>commandBuf := buf0, charCnt := int ?n,
              trace := trace st @ concat (replicate k bs_echo)\<rparr>)"
    and l0: "length buf0 = 128" and tk0: "take ?n buf0 = ?L"
    unfolding pl by blast
  let ?st0 = "st\<lparr>commandBuf := buf0, charCnt := int ?n,
              trace := trace st @ concat (replicate k bs_echo)\<rparr>"
  let ?buf = "buf0[?n := CHR 0x00]"
  let ?S = "st\<lparr>commandBuf := ?buf, charCnt := int ?n,
              trace := trace st @ concat (replicate k bs_echo)\<rparr>"
  have upd: "?st0\<lparr>commandBuf := (commandBuf ?st0)[nat (charCnt ?st0) := CHR 0x00]\<rparr> = ?S"
    by simp
  have tstep: "loop_char t ?st0 =
     (if 0 < charCnt ?st0
      then and_then (runCommand (?st0\<lparr>commandBuf := (commandBuf ?st0)[nat (charCnt ?st0) := CHR 0x00]\<rparr>))
             (\<lambda>s. Inr (s\<lparr>charCnt := 0\<rparr>))
      else Inr (?st0\<lparr>commandBuf := (commandBuf ?st0)[nat (charCnt ?st0) := CHR 0x00]\<rparr>))"
    using t n l0 by (intro loop_char_terminator) simp_all
  have tstep': "loop_char t ?st0 =
     (if ?L = [] then Inr ?S
      else and_then (runCommand ?S) (\<lambda>s. Inr (s\<lparr>charCnt := 0\<rparr>)))"
    unfolding tstep upd by simp
  have l: "length ?buf = 128" using l0 by simp
  have tk: "take ?n ?buf = ?L" using tk0 by simp
  have nul: "?buf ! ?n = CHR 0x00" using n l0 by simp
  have parts: "?buf = take ?n ?buf @ ?buf ! ?n # drop (Suc ?n) ?buf"
    using n l by (intro id_take_nth_drop) simp
  have cstr: "CHR 0x00 \<notin> set ?L \<longrightarrow> c_str ?buf = ?L"
  proof
    assume nonul: "CHR 0x00 \<notin> set ?L"
    have "c_str ?buf = takeWhile (\<lambda>c. c \<noteq> CHR 0x00) (?L @ CHR 0x00 # drop (Suc ?n) ?buf)"
      using parts tk nul by (simp add: c_str_def)
    also have "\<dots> = ?L"
      using nonul by (rule takeWhile_stops)
    finally show "c_str ?buf = ?L" .
  qed
  have split_input: "drain (content @ t # rest) st = and_then (loop_char t ?st0) (drain rest)"
    by (simp only: drain_append typed and_then_Inr drain.simps)
  have run: "drain (content @ t # rest) st =
        (if ?L = [] then drain rest ?S
         else and_then (runCommand ?S) (\<lambda>s. drain rest (s\<lparr>charCnt := 0\<rparr>)))"
    unfolding split_input tstep'
    by (simp add: and_then_Inr and_then_assoc)
  have frame: "\<forall>s. runCommand ?S = Inr s \<longrightarrow> length (commandBuf s) = 128"
  proof (intro allI impI)
    fix s
    assume "runCommand ?S = Inr s"
    then have "length (commandBuf s) = length (commandBuf ?S)"
      by (rule buflen_runCommand)
    then show "length (commandBuf s) = 128" using l by simp
  qed
  have quiet: "completed_lines [] rest = [] \<longrightarrow>
         (?L = [] \<longrightarrow>
            (\<exists>buf' k'. length buf' = 128 \<and> take (length ?P) buf' = ?P
               \<and> drain (content @ t # rest) st =
                   Inr (st\<lparr>commandBuf := buf', charCnt := int (length ?P),
                          trace := trace st @ concat (replicate k' bs_echo)\<rparr>)))
       \<and> (?L \<noteq> [] \<longrightarrow>
            (\<forall>e. runCommand ?S = Inl e \<longrightarrow> drain (content @ t # rest) st = Inl e)
          \<and> (\<forall>s. runCommand ?S = Inr s \<longrightarrow>
                  (\<exists>buf' k'. length buf' = 128 \<and> take (length ?P) buf' = ?P
                     \<and> drain (content @ t # rest) st =
                         Inr (s\<lparr>commandBuf := buf', charCnt := int (length ?P),
                                trace := trace s @ concat (replicate k' bs_echo)\<rparr>))))"
  proof
    assume cr: "completed_lines [] rest = []"
    have lr: "length ([] :: string) + length rest \<le> 127" using len by simp
    have R: "\<exists>buf' k'. drain rest s =
           Inr (s\<lparr>commandBuf := buf', charCnt := int (length ?P),
                  trace := trace s @ concat (replicate k' bs_echo)\<rparr>)
         \<and> length buf' = 128 \<and> take (length ?P) buf' = ?P"
      if "charCnt s = 0" "length (commandBuf s) = 128" for s
      using that lr by (intro typing [OF cr]) simp_all
    show "(?L = [] \<longrightarrow>
            (\<exists>buf' k'. length buf' = 128 \<and> take (length ?P) buf' = ?P
               \<and> drain (content @ t # rest) st =
                   Inr (st\<lparr>commandBuf := buf', charCnt := int (length ?P),
                          trace := trace st @ concat (replicate k' bs_echo)\<rparr>)))
       \<and> (?L \<noteq> [] \<longrightarrow>
            (\<forall>e. runCommand ?S = Inl e \<longrightarrow> drain (content @ t # rest) st = Inl e)
          \<and> (\<forall>s. runCommand ?S = Inr s \<longrightarrow>
                  (\<exists>buf' k'. length buf' = 128 \<and> take (length ?P) buf' = ?P
                     \<and> drain (content @ t # rest) st =
                         Inr (s\<lparr>commandBuf := buf', charCnt := int (length ?P),
                                trace := trace s @ concat (replicate k' bs_echo)\<rparr>))))"
    proof (intro conjI impI allI)
      assume e: "?L = []"
      have "charCnt ?S = 0" "length (commandBuf ?S) = 128" using e l by simp_all
      from R [OF this] obtain buf' k' where
        d: "drain rest ?S =
           Inr (?S\<lparr>commandBuf := buf', charCnt := int (length ?P),
                  trace := trace ?S @ concat (replicate k' bs_echo)\<rparr>)"
        and l': "length buf' = 128" and tk': "take (length ?P) buf' = ?P"
        by blast
      have r1: "drain (content @ t # rest) st = drain rest ?S"
        unfolding run by (rule if_P [OF e])
      have r2: "drain rest ?S =
             Inr (st\<lparr>commandBuf := buf', charCnt := int (length ?P),
                    trace := trace st @ concat (replicate (k + k') bs_echo)\<rparr>)"
        unfolding d by (simp add: replicate_add)
      from r1 r2 have "drain (content @ t # rest) st =
             Inr (st\<lparr>commandBuf := buf', charCnt := int (length ?P),
                    trace := trace st @ concat (replicate (k + k') bs_echo)\<rparr>)"
        by (rule trans)
      with l' tk' show "\<exists>buf' k'. length buf' = 128 \<and> take (length ?P) buf' = ?P
               \<and> drain (content @ t # rest) st =
                   Inr (st\<lparr>commandBuf := buf', charCnt := int (length ?P),
                          trace := trace st @ concat (replicate k' bs_echo)\<rparr>)"
        by blast
    next
      fix e
      assume "?L \<noteq> []" and "runCommand ?S = Inl e"
      then show "drain (content @ t # rest) st = Inl e"
        by (simp add: run and_then_Inl)
    next
      fix s
      assume ne: "?L \<noteq> []" and ok: "runCommand ?S = Inr s"
      have "charCnt (s\<lparr>charCnt := 0\<rparr>) = 0" "length (commandBuf (s\<lparr>charCnt := 0\<rparr>)) = 128"
        using frame ok by simp_all
      from R [OF this] obtain buf' k' where
        d: "drain rest (s\<lparr>charCnt := 0\<rparr>) =
           Inr (s\<lparr>charCnt := 0\<rparr>\<lparr>commandBuf := buf', charCnt := int (length ?P),
                  trace := trace (s\<lparr>charCnt := 0\<rparr>) @ concat (replicate k' bs_echo)\<rparr>)"
        and l': "length buf' = 128" and tk': "take (length ?P) buf' = ?P"
        by blast
      have "drain (content @ t # rest) st =
             Inr (s\<lparr>commandBuf := buf', charCnt := int (length ?P),
                    trace := trace s @ concat (replicate k' bs_echo)\<rparr>)"
        using ne by (simp add: run ok and_then_Inr d)
      with l' tk' show "\<exists>buf' k'. length buf' = 128 \<and> take (length ?P) buf' = ?P
                     \<and> drain (content @ t # rest) st =
                         Inr (s\<lparr>commandBuf := buf', charCnt := int (length ?P),
                                trace := trace s @ concat (replicate k' bs_echo)\<rparr>)"
        by blast
    qed
  qed
  from l tk nul cstr run frame quiet show ?thesis
    by (intro exI [of _ ?buf] exI [of _ k] conjI)
qed


lemma line_examples:
  "apply_backspaces [] (''abx'' @ [CHR 0x08]) = ''ab''"
  "completed_lines [] [CHR 0x0A] = []"
  "pending_line [] [CHR 0x0A] = []"
  "completed_lines [] [CHR 0x0D] = []"
  "completed_lines [] (''c'' @ [CHR 0x0D] @ ''r'' @ [CHR 0x0D]) = [''c'', ''r'']"
  by (simp_all add: is_terminator_def)

theorem line_buffer_dispatches_nonempty_line_witness:
  "charCnt after_setup = 0 \<and> length (commandBuf after_setup) = 128
   \<and> filter is_terminator (''abx'' @ [CHR 0x08]) = []
   \<and> is_terminator (CHR 0x0D)
   \<and> length ((''abx'' @ [CHR 0x08]) @ CHR 0x0D # [CHR 0x0A]) \<le> 127
   \<and> apply_backspaces [] (''abx'' @ [CHR 0x08]) = ''ab''
   \<and> completed_lines [] [CHR 0x0A] = []
   \<and> (\<exists>buf k. c_str buf = ''ab''
        \<and> (\<forall>e. runCommand (after_setup\<lparr>commandBuf := buf, charCnt := 2,
                     trace := concat (replicate k bs_echo)\<rparr>) = Inl e \<longrightarrow>
               drain ((''abx'' @ [CHR 0x08]) @ CHR 0x0D # [CHR 0x0A]) after_setup = Inl e)
        \<and> (\<forall>s. runCommand (after_setup\<lparr>commandBuf := buf, charCnt := 2,
                     trace := concat (replicate k bs_echo)\<rparr>) = Inr s \<longrightarrow>
               (\<exists>buf' k'. drain ((''abx'' @ [CHR 0x08]) @ CHR 0x0D # [CHR 0x0A]) after_setup =
                   Inr (s\<lparr>commandBuf := buf', charCnt := 0,
                          trace := trace s @ concat (replicate k' bs_echo)\<rparr>))))"
proof -
  have a: "charCnt after_setup = 0" "length (commandBuf after_setup) = 128"
    by (simp_all add: after_setup_def)
  have b: "\<forall>c \<in> set (''abx'' @ [CHR 0x08]). \<not> is_terminator c"
    by (simp add: is_terminator_def)
  have c: "is_terminator (CHR 0x0D)" by (simp add: is_terminator_def)
  have d: "length ((''abx'' @ [CHR 0x08]) @ CHR 0x0D # [CHR 0x0A]) \<le> 127" by simp
  have f: "filter is_terminator (''abx'' @ [CHR 0x08]) = []"
    by (simp add: is_terminator_def)
  have tr: "trace after_setup = []" by (simp add: after_setup_def)
  have nonul: "CHR 0x00 \<notin> set ''ab''" by simp
  from line_buffer_dispatches_nonempty_line [OF a b c d]
  obtain buf k where
    cs: "CHR 0x00 \<notin> set ''ab'' \<longrightarrow> c_str buf = ''ab''"
    and q: "completed_lines [] [CHR 0x0A] = [] \<longrightarrow>
         (''ab'' = [] \<longrightarrow>
            (\<exists>buf' k'. length buf' = 128
               \<and> take (length (pending_line [] [CHR 0x0A])) buf' = pending_line [] [CHR 0x0A]
               \<and> drain ((''abx'' @ [CHR 0x08]) @ CHR 0x0D # [CHR 0x0A]) after_setup =
                   Inr (after_setup\<lparr>commandBuf := buf',
                          charCnt := int (length (pending_line [] [CHR 0x0A])),
                          trace := trace after_setup @ concat (replicate k' bs_echo)\<rparr>)))
       \<and> (''ab'' \<noteq> [] \<longrightarrow>
            (\<forall>e. runCommand
                    (after_setup\<lparr>commandBuf := buf,
                        charCnt := int (length ''ab''),
                        trace := trace after_setup @ concat (replicate k bs_echo)\<rparr>) = Inl e \<longrightarrow>
                  drain ((''abx'' @ [CHR 0x08]) @ CHR 0x0D # [CHR 0x0A]) after_setup = Inl e)
          \<and> (\<forall>s. runCommand
                    (after_setup\<lparr>commandBuf := buf,
                        charCnt := int (length ''ab''),
                        trace := trace after_setup @ concat (replicate k bs_echo)\<rparr>) = Inr s \<longrightarrow>
                  (\<exists>buf' k'. length buf' = 128
                     \<and> take (length (pending_line [] [CHR 0x0A])) buf' = pending_line [] [CHR 0x0A]
                     \<and> drain ((''abx'' @ [CHR 0x08]) @ CHR 0x0D # [CHR 0x0A]) after_setup =
                         Inr (s\<lparr>commandBuf := buf',
                                charCnt := int (length (pending_line [] [CHR 0x0A])),
                                trace := trace s @ concat (replicate k' bs_echo)\<rparr>))))"
    unfolding line_examples(1) by blast
  from cs nonul have cs': "c_str buf = ''ab''" by blast
  have run:
    "(\<forall>e. runCommand (after_setup\<lparr>commandBuf := buf, charCnt := 2,
                     trace := concat (replicate k bs_echo)\<rparr>) = Inl e \<longrightarrow>
               drain ((''abx'' @ [CHR 0x08]) @ CHR 0x0D # [CHR 0x0A]) after_setup = Inl e)
        \<and> (\<forall>s. runCommand (after_setup\<lparr>commandBuf := buf, charCnt := 2,
                     trace := concat (replicate k bs_echo)\<rparr>) = Inr s \<longrightarrow>
               (\<exists>buf' k'. drain ((''abx'' @ [CHR 0x08]) @ CHR 0x0D # [CHR 0x0A]) after_setup =
                   Inr (s\<lparr>commandBuf := buf', charCnt := 0,
                          trace := trace s @ concat (replicate k' bs_echo)\<rparr>)))"
  proof -
    have ne: "''ab'' \<noteq> []" by simp
    have h1: "int (length ''ab'') = 2" by simp
    have h2: "int (length (pending_line [] [CHR 0x0A])) = 0" unfolding line_examples(3) by simp
    note q3 = mp [OF conjunct2 [OF mp [OF q line_examples(2)]] ne]
    show ?thesis
      using q3 unfolding h1 h2 tr append_Nil by blast
  qed
  from a f c d line_examples(1,2) cs' run show ?thesis by blast
qed

text \<open>
  C7 as stated fails in two ways. An input that is a lone carriage return has length 1
  and contains a terminator, but the guard \<^verbatim>\<open>if (charCnt > 0)\<close> skips the dispatch: no
  line is yielded, the state is what it was and nothing is printed. And the six
  characters \<^verbatim>\<open>c\<close> CR \<^verbatim>\<open>r\<close> CR contain a terminator and yield two lines, not one: the
  enable and the refresh command both run.
\<close>

lemma lone_terminator_example: "drain [CHR 0x0D] after_setup = Inr after_setup"
proof -
  have "(commandBuf after_setup)[0 := CHR 0x00] = commandBuf after_setup"
    by (simp add: after_setup_def list_update_same_conv)
  then have "after_setup\<lparr>commandBuf := (commandBuf after_setup)[0 := CHR 0x00]\<rparr> = after_setup"
    by simp
  moreover have "charCnt after_setup = 0" "length (commandBuf after_setup) = 128"
    by (simp_all add: after_setup_def)
  ultimately show ?thesis
    by (simp add: loop_char_def buf_store_def and_then_def)
qed

lemma two_lines_example:
  "map_sum id trace (drain (''c'' @ [CHR 0x0D] @ ''r'' @ [CHR 0x0D]) after_setup) =
     Inr [MachXO_enableConfigOffline, Serial_println ''Enabled Offline Configuration'',
          MachXO_refresh, Serial_println ''Refreshed MachXO Configuration'']"
  by code_simp

theorem one_line_counterexample:
  "length [CHR 0x0D] \<le> 127
   \<and> is_terminator (CHR 0x0D)
   \<and> completed_lines [] [CHR 0x0D] = []
   \<and> drain [CHR 0x0D] after_setup = Inr after_setup
   \<and> trace after_setup = []
   \<and> length (''c'' @ [CHR 0x0D] @ ''r'' @ [CHR 0x0D]) \<le> 127
   \<and> completed_lines [] (''c'' @ [CHR 0x0D] @ ''r'' @ [CHR 0x0D]) = [''c'', ''r'']
   \<and> map_sum id trace (drain (''c'' @ [CHR 0x0D] @ ''r'' @ [CHR 0x0D]) after_setup) =
       Inr [MachXO_enableConfigOffline, Serial_println ''Enabled Offline Configuration'',
            MachXO_refresh, Serial_println ''Refreshed MachXO Configuration'']"
proof -
  have "trace after_setup = []" by (simp add: after_setup_def)
  moreover have "is_terminator (CHR 0x0D)" by (simp add: is_terminator_def)
  moreover have "length [CHR 0x0D] \<le> 127" "length (''c'' @ [CHR 0x0D] @ ''r'' @ [CHR 0x0D]) \<le> 127"
    by simp_all
  ultimately show ?thesis
    using lone_terminator_example two_lines_example line_examples(4,5) by blast
qed

end
